theory Spec2Isabelle
  imports Main "HOL-Library.Word" "HOL-Library.AList" "HOL-Library.Sublist"
begin

section \<open>JavaScript values\<close>

text \<open>
  The bridge of \<^verbatim>\<open>pyorion_socket.js\<close> handles untyped JavaScript values. A value is
  modelled by the outcome of the type tests the code performs on it:
  \<^item> \<open>JUndefined\<close>, \<open>JNull\<close>: \<^verbatim>\<open>undefined\<close> and \<^verbatim>\<open>null\<close>;
  \<^item> \<open>JBool\<close>, \<open>JNum\<close>, \<open>JStr\<close>: \<^verbatim>\<open>typeof\<close> is boolean, number, string. The code never
    computes with a number: it passes it on, tests its truthiness and prints it. Numbers
    are integer valued here (as the correlation ids are), strings are byte strings;
  \<^item> \<open>JDate\<close>: \<^verbatim>\<open>instanceof Date\<close>, with its time value in milliseconds since the epoch;
    \<open>None\<close> is the Invalid Date, whose time value is NaN;
  \<^item> \<open>JPath\<close>: an object whose \<^verbatim>\<open>constructor.name\<close> is "Path", with its \<^verbatim>\<open>String(obj)\<close>;
  \<^item> \<open>JArrayBuffer\<close>: \<^verbatim>\<open>instanceof ArrayBuffer\<close>, with its bytes;
  \<^item> \<open>JView\<close>: \<^verbatim>\<open>ArrayBuffer.isView\<close>, a typed array with its elements in order (as the
    integers that \<^verbatim>\<open>String.fromCharCode\<close> converts);
  \<^item> \<open>JArr\<close>: \<^verbatim>\<open>Array.isArray\<close>; \<open>JSet\<close>: \<^verbatim>\<open>instanceof Set\<close>, members in iteration order;
  \<^item> \<open>JObj\<close>: \<^verbatim>\<open>typeof\<close> is object and \<^verbatim>\<open>constructor === Object\<close>, with its own enumerable
    properties in the order of \<^verbatim>\<open>Object.entries\<close>. The keys are distinct. The codec is
    modelled for objects without an own property named \<^verbatim>\<open>__proto__\<close> (assigning to it
    sets the prototype and creates no property) or \<^verbatim>\<open>constructor\<close> (it hides
    \<^verbatim>\<open>Object\<close> from the test \<^verbatim>\<open>constructor === Object\<close>); \<open>reserved_key\<close> below names
    the two keys, and the properties of the codec are stated for objects without them;
  \<^item> \<open>JOther\<close>: anything else (a function, a symbol, a Map, an instance of a class), with
    whether \<^verbatim>\<open>typeof\<close> is object, its \<^verbatim>\<open>String(obj)\<close> and its \<^verbatim>\<open>Object.entries\<close>.
\<close>

datatype jsval =
    JUndefined
  | JNull
  | JBool bool
  | JNum int
  | JStr string
  | JDate "int option"
  | JPath string
  | JArrayBuffer "8 word list"
  | JView "int list"
  | JArr "jsval list"
  | JSet "jsval list"
  | JObj "(string \<times> jsval) list"
  | JOther bool string "(string \<times> jsval) list"

text \<open>The exceptions that the built-in functions called by the code can throw.\<close>

datatype js_error = RangeError | InvalidCharacterError | TypeError | InvalidAccessError | SyntaxError

subsection \<open>Built-in functions of the host\<close>

text \<open>
  The three \<^verbatim>\<open>Date\<close> functions the code calls belong to the JavaScript engine, not to
  the repository; the codec takes them as a parameter. \<open>toISOString\<close> is applied to a
  valid time value only; \<open>Date_parse s\<close> is the time value of \<^verbatim>\<open>new Date(s)\<close>, \<open>None\<close>
  when it is NaN; \<open>Date_toString\<close> is \<^verbatim>\<open>String(date)\<close>, which depends on the local time zone.
\<close>

record platform =
  toISOString :: "int \<Rightarrow> string"
  Date_parse :: "string \<Rightarrow> int option"
  Date_toString :: "int option \<Rightarrow> string"

text \<open>Decimal numerals, as \<^verbatim>\<open>String(n)\<close> prints an integer; \<open>dec_pos\<close> is for \<open>n \<ge> 0\<close>.\<close>

definition digit_char :: "int \<Rightarrow> char" where
  "digit_char d = ''0123456789'' ! nat d"

function dec_pos :: "int \<Rightarrow> string" where
  "dec_pos n = (if n < 10 then [digit_char n] else dec_pos (n div 10) @ [digit_char (n mod 10)])"
  by pat_completeness auto
termination
  by (relation "measure nat") auto

declare dec_pos.simps [simp del]

definition dec_int :: "int \<Rightarrow> string" where
  "dec_int i = (if i < 0 then CHR ''-'' # dec_pos (- i) else dec_pos i)"

text \<open>
  \<^verbatim>\<open>btoa(String.fromCharCode(...xs))\<close>: every element becomes a 16-bit code unit, and
  \<^verbatim>\<open>btoa\<close> throws InvalidCharacterError on a code unit above 255; otherwise it is the
  base64 encoding (RFC 4648 alphabet, padded with \<^verbatim>\<open>=\<close>).
\<close>

definition b64_char :: "nat \<Rightarrow> char" where
  "b64_char n = ''ABCDEFGHIJKLMNOPQRSTUVWXYZabcdefghijklmnopqrstuvwxyz0123456789+/'' ! n"

fun base64 :: "nat list \<Rightarrow> string" where
  "base64 [] = []"
| "base64 [a] = [b64_char (a div 4), b64_char ((a mod 4) * 16), CHR ''='', CHR ''='']"
| "base64 [a, b] =
     [b64_char (a div 4), b64_char ((a mod 4) * 16 + b div 16), b64_char ((b mod 16) * 4), CHR ''='']"
| "base64 (a # b # c # rest) =
     [b64_char (a div 4), b64_char ((a mod 4) * 16 + b div 16),
      b64_char ((b mod 16) * 4 + c div 64), b64_char (c mod 64)] @ base64 rest"

definition fromCharCode :: "int list \<Rightarrow> nat list" where
  "fromCharCode xs = map (\<lambda>x. nat (x mod 65536)) xs"

definition btoa :: "nat list \<Rightarrow> js_error + string" where
  "btoa cs = (if list_ex (\<lambda>c. 255 < c) cs then Inl InvalidCharacterError else Inr (base64 cs))"

text \<open>
  The two keys that a plain object of the model does not have, and truthiness, as \<^verbatim>\<open>if (x)\<close> and \<^verbatim>\<open>x && y\<close> test it: \<^verbatim>\<open>undefined\<close>, \<^verbatim>\<open>null\<close>, \<^verbatim>\<open>false\<close>,
  zero and the empty string are falsy, every object is truthy.
\<close>

definition reserved_key :: "string \<Rightarrow> bool" where
  "reserved_key k = (k = ''__proto__'' \<or> k = ''constructor'')"

fun truthy :: "jsval \<Rightarrow> bool" where
  "truthy JUndefined = False"
| "truthy JNull = False"
| "truthy (JBool b) = b"
| "truthy (JNum n) = (n \<noteq> 0)"
| "truthy (JStr s) = (s \<noteq> [])"
| "truthy _ = True"

text \<open>
  \<^verbatim>\<open>obj.name\<close> on a value: the own property of an object, \<^verbatim>\<open>undefined\<close> when there is
  none (no property that the code reads is inherited from a prototype).
\<close>

fun get_prop :: "jsval \<Rightarrow> string \<Rightarrow> jsval" where
  "get_prop (JObj kvs) k = (case map_of kvs k of None \<Rightarrow> JUndefined | Some v \<Rightarrow> v)"
| "get_prop (JOther b s kvs) k = (case map_of kvs k of None \<Rightarrow> JUndefined | Some v \<Rightarrow> v)"
| "get_prop _ k = JUndefined"

text \<open>
  The string that a template literal \<^verbatim>\<open>`${v}`\<close> inserts for a value. An array prints its
  elements joined by commas, \<^verbatim>\<open>null\<close> and \<^verbatim>\<open>undefined\<close> elements as the empty string; an
  object prints through \<^verbatim>\<open>Object.prototype.toString\<close>.
\<close>

fun join_comma :: "string list \<Rightarrow> string" where
  "join_comma [] = []"
| "join_comma [s] = s"
| "join_comma (s # t # ss) = s @ '','' @ join_comma (t # ss)"

fun toStr :: "platform \<Rightarrow> jsval \<Rightarrow> string"
  and elemStr :: "platform \<Rightarrow> jsval \<Rightarrow> string"
  and elemStrs :: "platform \<Rightarrow> jsval list \<Rightarrow> string list"
where
  "toStr P JUndefined = ''undefined''"
| "toStr P JNull = ''null''"
| "toStr P (JBool b) = (if b then ''true'' else ''false'')"
| "toStr P (JNum n) = dec_int n"
| "toStr P (JStr s) = s"
| "toStr P (JDate d) = Date_toString P d"
| "toStr P (JPath s) = s"
| "toStr P (JArrayBuffer bs) = ''[object ArrayBuffer]''"
| "toStr P (JView xs) = join_comma (map dec_int xs)"
| "toStr P (JArr xs) = join_comma (elemStrs P xs)"
| "toStr P (JSet xs) = ''[object Set]''"
| "toStr P (JObj kvs) = ''[object Object]''"
| "toStr P (JOther b s kvs) = s"
| "elemStr P JUndefined = []"
| "elemStr P JNull = []"
| "elemStr P (JBool b) = toStr P (JBool b)"
| "elemStr P (JNum n) = toStr P (JNum n)"
| "elemStr P (JStr s) = toStr P (JStr s)"
| "elemStr P (JDate d) = toStr P (JDate d)"
| "elemStr P (JPath s) = toStr P (JPath s)"
| "elemStr P (JArrayBuffer bs) = toStr P (JArrayBuffer bs)"
| "elemStr P (JView xs) = toStr P (JView xs)"
| "elemStr P (JArr xs) = toStr P (JArr xs)"
| "elemStr P (JSet xs) = toStr P (JSet xs)"
| "elemStr P (JObj kvs) = toStr P (JObj kvs)"
| "elemStr P (JOther b s kvs) = toStr P (JOther b s kvs)"
| "elemStrs P [] = []"
| "elemStrs P (x # xs) = elemStr P x # elemStrs P xs"

section \<open>Marshalling codec\<close>

subsection \<open>Encoding: the copy used by invoke (lines 165 to 196)\<close>

text \<open>
  The branches are in the order of the source. \<open>safe_elems\<close> is the callback of
  \<^verbatim>\<open>Array.from(obj, v => jsonMakeObjectSafe(v))\<close>; \<open>safe_entries\<close> is the loop
  \<^verbatim>\<open>for (const [k, v] of Object.entries(obj)) safe[String(k)] = jsonMakeObjectSafe(v)\<close>,
  its last argument the object \<^verbatim>\<open>safe\<close> built so far. An exception thrown by
  \<^verbatim>\<open>toISOString\<close> (on the Invalid Date) or by \<^verbatim>\<open>btoa\<close> leaves every enclosing call.
\<close>

fun jsonMakeObjectSafe :: "platform \<Rightarrow> jsval \<Rightarrow> js_error + jsval"
  and safe_elems :: "platform \<Rightarrow> jsval list \<Rightarrow> js_error + jsval list"
  and safe_entries ::
    "platform \<Rightarrow> (string \<times> jsval) list \<Rightarrow> (string \<times> jsval) list \<Rightarrow> js_error + (string \<times> jsval) list"
where
  "jsonMakeObjectSafe P JNull = Inr JNull"
| "jsonMakeObjectSafe P JUndefined = Inr JNull"
| "jsonMakeObjectSafe P (JStr s) = Inr (JStr s)"
| "jsonMakeObjectSafe P (JNum n) = Inr (JNum n)"
| "jsonMakeObjectSafe P (JBool b) = Inr (JBool b)"
| "jsonMakeObjectSafe P (JDate d) =
     (case d of None \<Rightarrow> Inl RangeError | Some t \<Rightarrow> Inr (JStr (toISOString P t)))"
| "jsonMakeObjectSafe P (JPath s) = Inr (JStr s)"
| "jsonMakeObjectSafe P (JArrayBuffer bs) =
     (case btoa (map unat bs) of Inl e \<Rightarrow> Inl e | Inr s \<Rightarrow> Inr (JStr s))"
| "jsonMakeObjectSafe P (JView xs) =
     (case btoa (fromCharCode xs) of Inl e \<Rightarrow> Inl e | Inr s \<Rightarrow> Inr (JStr s))"
| "jsonMakeObjectSafe P (JArr xs) =
     (case safe_elems P xs of Inl e \<Rightarrow> Inl e | Inr ys \<Rightarrow> Inr (JArr ys))"
| "jsonMakeObjectSafe P (JSet xs) =
     (case safe_elems P xs of Inl e \<Rightarrow> Inl e | Inr ys \<Rightarrow> Inr (JArr ys))"
| "jsonMakeObjectSafe P (JObj kvs) =
     (case safe_entries P kvs [] of Inl e \<Rightarrow> Inl e | Inr safe \<Rightarrow> Inr (JObj safe))"
| "jsonMakeObjectSafe P (JOther b s kvs) = Inr (JStr s)"
| "safe_elems P [] = Inr []"
| "safe_elems P (x # xs) =
     (case jsonMakeObjectSafe P x of Inl e \<Rightarrow> Inl e
      | Inr y \<Rightarrow> (case safe_elems P xs of Inl e \<Rightarrow> Inl e | Inr ys \<Rightarrow> Inr (y # ys)))"
| "safe_entries P [] safe = Inr safe"
| "safe_entries P ((k, v) # kvs) safe =
     (case jsonMakeObjectSafe P v of Inl e \<Rightarrow> Inl e
      | Inr y \<Rightarrow> safe_entries P kvs (AList.update k y safe))"

subsection \<open>Encoding: the copy of the connection manager (lines 6 to 48)\<close>

text \<open>
  The same function as written at the top of the file, used by \<^verbatim>\<open>send\<close>. Here the test
  \<^verbatim>\<open>typeof obj === "object" && !Array.isArray(obj)\<close> comes before the test for arrays
  and sets, so every object that is not an array takes the branch for plain objects:
  a \<open>JSet\<close> (whose \<^verbatim>\<open>Object.entries\<close> is empty) and a \<open>JOther\<close> object as well.
\<close>

fun jsonMakeObjectSafe_cm :: "platform \<Rightarrow> jsval \<Rightarrow> js_error + jsval"
  and safe_elems_cm :: "platform \<Rightarrow> jsval list \<Rightarrow> js_error + jsval list"
  and safe_entries_cm ::
    "platform \<Rightarrow> (string \<times> jsval) list \<Rightarrow> (string \<times> jsval) list \<Rightarrow> js_error + (string \<times> jsval) list"
where
  "jsonMakeObjectSafe_cm P JNull = Inr JNull"
| "jsonMakeObjectSafe_cm P JUndefined = Inr JNull"
| "jsonMakeObjectSafe_cm P (JStr s) = Inr (JStr s)"
| "jsonMakeObjectSafe_cm P (JNum n) = Inr (JNum n)"
| "jsonMakeObjectSafe_cm P (JBool b) = Inr (JBool b)"
| "jsonMakeObjectSafe_cm P (JDate d) =
     (case d of None \<Rightarrow> Inl RangeError | Some t \<Rightarrow> Inr (JStr (toISOString P t)))"
| "jsonMakeObjectSafe_cm P (JPath s) = Inr (JStr s)"
| "jsonMakeObjectSafe_cm P (JArrayBuffer bs) =
     (case btoa (map unat bs) of Inl e \<Rightarrow> Inl e | Inr s \<Rightarrow> Inr (JStr s))"
| "jsonMakeObjectSafe_cm P (JView xs) =
     (case btoa (fromCharCode xs) of Inl e \<Rightarrow> Inl e | Inr s \<Rightarrow> Inr (JStr s))"
| "jsonMakeObjectSafe_cm P (JObj kvs) =
     (case safe_entries_cm P kvs [] of Inl e \<Rightarrow> Inl e | Inr safe \<Rightarrow> Inr (JObj safe))"
| "jsonMakeObjectSafe_cm P (JSet xs) =
     (case safe_entries_cm P [] [] of Inl e \<Rightarrow> Inl e | Inr safe \<Rightarrow> Inr (JObj safe))"
| "jsonMakeObjectSafe_cm P (JOther b s kvs) =
     (if b then (case safe_entries_cm P kvs [] of Inl e \<Rightarrow> Inl e | Inr safe \<Rightarrow> Inr (JObj safe))
      else Inr (JStr s))"
| "jsonMakeObjectSafe_cm P (JArr xs) =
     (case safe_elems_cm P xs of Inl e \<Rightarrow> Inl e | Inr ys \<Rightarrow> Inr (JArr ys))"
| "safe_elems_cm P [] = Inr []"
| "safe_elems_cm P (x # xs) =
     (case jsonMakeObjectSafe_cm P x of Inl e \<Rightarrow> Inl e
      | Inr y \<Rightarrow> (case safe_elems_cm P xs of Inl e \<Rightarrow> Inl e | Inr ys \<Rightarrow> Inr (y # ys)))"
| "safe_entries_cm P [] safe = Inr safe"
| "safe_entries_cm P ((k, v) # kvs) safe =
     (case jsonMakeObjectSafe_cm P v of Inl e \<Rightarrow> Inl e
      | Inr y \<Rightarrow> safe_entries_cm P kvs (AList.update k y safe))"

subsection \<open>Decoding\<close>

text \<open>The test of \<^verbatim>\<open>/^\d{4}-\d{2}-\d{2}T/\<close>: a pattern of digits and literal characters
  matched at the start of the string.\<close>

datatype pat = Digit | Lit char

definition is_digit :: "char \<Rightarrow> bool" where
  "is_digit c = (c \<in> set ''0123456789'')"

fun matches_prefix :: "pat list \<Rightarrow> string \<Rightarrow> bool" where
  "matches_prefix [] s = True"
| "matches_prefix (p # ps) [] = False"
| "matches_prefix (Digit # ps) (c # cs) = (is_digit c \<and> matches_prefix ps cs)"
| "matches_prefix (Lit l # ps) (c # cs) = (c = l \<and> matches_prefix ps cs)"

definition iso_date_prefix :: "string \<Rightarrow> bool" where
  "iso_date_prefix s =
     matches_prefix [Digit, Digit, Digit, Digit, Lit CHR ''-'', Digit, Digit, Lit CHR ''-'',
                     Digit, Digit, Lit CHR ''T''] s"

text \<open>The test of \<^verbatim>\<open>/^data:.*;base64,/\<close>: the dot matches no line terminator.\<close>

fun contains_on_line :: "string \<Rightarrow> string \<Rightarrow> bool" where
  "contains_on_line w [] = (w = [])"
| "contains_on_line w (c # cs) =
     (prefix w (c # cs) \<or> (c \<noteq> CHR 0x0A \<and> c \<noteq> CHR 0x0D \<and> contains_on_line w cs))"

definition data_uri_prefix :: "string \<Rightarrow> bool" where
  "data_uri_prefix s = (prefix ''data:'' s \<and> contains_on_line '';base64,'' (drop 5 s))"

text \<open>The media object of both variants: \<^verbatim>\<open>`data:${obj.media_type};base64,${obj.bytes}`\<close>.\<close>

definition is_media :: "jsval \<Rightarrow> bool" where
  "is_media obj = (truthy (get_prop obj ''media_type'') \<and> truthy (get_prop obj ''bytes''))"

definition data_uri :: "platform \<Rightarrow> jsval \<Rightarrow> string" where
  "data_uri P obj =
     ''data:'' @ toStr P (get_prop obj ''media_type'') @ '';base64,'' @ toStr P (get_prop obj ''bytes'')"

text \<open>
  The immediate variant (lines 202 to 231). \<open>restore_entries\<close> is the loop
  \<^verbatim>\<open>restored[k] = jsonRestoreObjectSync(v)\<close> over \<^verbatim>\<open>Object.entries(obj)\<close>.
\<close>

fun jsonRestoreObjectSync :: "platform \<Rightarrow> jsval \<Rightarrow> jsval"
  and restore_elems :: "platform \<Rightarrow> jsval list \<Rightarrow> jsval list"
  and restore_entries ::
    "platform \<Rightarrow> (string \<times> jsval) list \<Rightarrow> (string \<times> jsval) list \<Rightarrow> (string \<times> jsval) list"
where
  "jsonRestoreObjectSync P JNull = JNull"
| "jsonRestoreObjectSync P JUndefined = JNull"
| "jsonRestoreObjectSync P (JStr s) =
     (if iso_date_prefix s
      then (case Date_parse P s of Some t \<Rightarrow> JDate (Some t) | None \<Rightarrow> JStr s)
      else JStr s)"
| "jsonRestoreObjectSync P (JArr xs) = JArr (restore_elems P xs)"
| "jsonRestoreObjectSync P (JObj kvs) =
     (if is_media (JObj kvs) then JStr (data_uri P (JObj kvs))
      else JObj (restore_entries P kvs []))"
| "jsonRestoreObjectSync P (JBool b) = JBool b"
| "jsonRestoreObjectSync P (JNum n) = JNum n"
| "jsonRestoreObjectSync P (JDate d) = JDate d"
| "jsonRestoreObjectSync P (JPath s) = JPath s"
| "jsonRestoreObjectSync P (JArrayBuffer bs) = JArrayBuffer bs"
| "jsonRestoreObjectSync P (JView xs) = JView xs"
| "jsonRestoreObjectSync P (JSet xs) = JSet xs"
| "jsonRestoreObjectSync P (JOther b s kvs) = JOther b s kvs"
| "restore_elems P [] = []"
| "restore_elems P (x # xs) = jsonRestoreObjectSync P x # restore_elems P xs"
| "restore_entries P [] restored = restored"
| "restore_entries P ((k, v) # kvs) restored =
     restore_entries P kvs (AList.update k (jsonRestoreObjectSync P v) restored)"

text \<open>
  The deferred variant (lines 237 to 265), as the value its promise is fulfilled with:
  no step of it can reject, \<^verbatim>\<open>Promise.all\<close> keeps the order of the array, and the loop
  over the entries awaits one entry after the other. Both branches of the test on
  a string return the string.
\<close>

fun jsonRestoreObjectAsync :: "platform \<Rightarrow> jsval \<Rightarrow> jsval"
  and restore_elems_async :: "platform \<Rightarrow> jsval list \<Rightarrow> jsval list"
  and restore_entries_async ::
    "platform \<Rightarrow> (string \<times> jsval) list \<Rightarrow> (string \<times> jsval) list \<Rightarrow> (string \<times> jsval) list"
where
  "jsonRestoreObjectAsync P JNull = JNull"
| "jsonRestoreObjectAsync P JUndefined = JNull"
| "jsonRestoreObjectAsync P (JStr s) = (if data_uri_prefix s then JStr s else JStr s)"
| "jsonRestoreObjectAsync P (JArr xs) = JArr (restore_elems_async P xs)"
| "jsonRestoreObjectAsync P (JObj kvs) =
     (if is_media (JObj kvs) then JStr (data_uri P (JObj kvs))
      else JObj (restore_entries_async P kvs []))"
| "jsonRestoreObjectAsync P (JBool b) = JBool b"
| "jsonRestoreObjectAsync P (JNum n) = JNum n"
| "jsonRestoreObjectAsync P (JDate d) = JDate d"
| "jsonRestoreObjectAsync P (JPath s) = JPath s"
| "jsonRestoreObjectAsync P (JArrayBuffer bs) = JArrayBuffer bs"
| "jsonRestoreObjectAsync P (JView xs) = JView xs"
| "jsonRestoreObjectAsync P (JSet xs) = JSet xs"
| "jsonRestoreObjectAsync P (JOther b s kvs) = JOther b s kvs"
| "restore_elems_async P [] = []"
| "restore_elems_async P (x # xs) = jsonRestoreObjectAsync P x # restore_elems_async P xs"
| "restore_entries_async P [] restored = restored"
| "restore_entries_async P ((k, v) # kvs) restored =
     restore_entries_async P kvs (AList.update k (jsonRestoreObjectAsync P v) restored)"

subsection \<open>A reference host\<close>

text \<open>
  Concrete \<^verbatim>\<open>Date\<close> functions, for evaluating the codec on examples: the proleptic
  Gregorian calendar in UTC. \<open>iso_string\<close> is \<^verbatim>\<open>toISOString\<close>
  (\<^verbatim>\<open>YYYY-MM-DDTHH:mm:ss.sssZ\<close>, with a sign and six digits for a year outside 0 to 9999);
  \<open>parse_iso\<close> reads back exactly that format with a four-digit year and treats every
  other string as invalid, where an engine accepts further forms; \<open>utc_string\<close> is
  \<^verbatim>\<open>String(date)\<close> on a host whose time zone is UTC. The general theorems below hold for
  every \<open>platform\<close> and do not depend on these definitions.
\<close>

definition pad :: "nat \<Rightarrow> int \<Rightarrow> string" where
  "pad w n = replicate (w - length (dec_pos n)) CHR ''0'' @ dec_pos n"

definition civil_from_days :: "int \<Rightarrow> int \<times> int \<times> int" where
  "civil_from_days z0 =
     (let z = z0 + 719468;
          era = z div 146097;
          doe = z - era * 146097;
          yoe = (doe - doe div 1460 + doe div 36524 - doe div 146096) div 365;
          doy = doe - (365 * yoe + yoe div 4 - yoe div 100);
          mp = (5 * doy + 2) div 153;
          d = doy - (153 * mp + 2) div 5 + 1;
          m = (if mp < 10 then mp + 3 else mp - 9);
          y = yoe + era * 400 + (if m \<le> 2 then 1 else 0)
      in (y, m, d))"

definition days_from_civil :: "int \<Rightarrow> int \<Rightarrow> int \<Rightarrow> int" where
  "days_from_civil y0 m d =
     (let y = (if m \<le> 2 then y0 - 1 else y0);
          era = y div 400;
          yoe = y - era * 400;
          doy = (153 * (if 2 < m then m - 3 else m + 9) + 2) div 5 + d - 1;
          doe = yoe * 365 + yoe div 4 - yoe div 100 + doy
      in era * 146097 + doe - 719468)"

definition year_str :: "int \<Rightarrow> string" where
  "year_str y = (if 0 \<le> y \<and> y \<le> 9999 then pad 4 y
                 else (if y < 0 then ''-'' else ''+'') @ pad 6 \<bar>y\<bar>)"

definition clock_str :: "int \<Rightarrow> string" where
  "clock_str ms = pad 2 (ms div 3600000) @ '':'' @ pad 2 (ms div 60000 mod 60) @ '':''
                  @ pad 2 (ms div 1000 mod 60)"

fun iso_fields :: "int \<times> int \<times> int \<Rightarrow> int \<Rightarrow> string" where
  "iso_fields (y, m, d) ms =
     year_str y @ ''-'' @ pad 2 m @ ''-'' @ pad 2 d @ ''T''
     @ clock_str ms @ ''.'' @ pad 3 (ms mod 1000) @ ''Z''"

definition iso_string :: "int \<Rightarrow> string" where
  "iso_string t = iso_fields (civil_from_days (t div 86400000)) (t mod 86400000)"

definition digits_val :: "string \<Rightarrow> int" where
  "digits_val cs = foldl (\<lambda>a c. 10 * a + (int (of_char c) - 48)) 0 cs"

definition days_in_month :: "int \<Rightarrow> int \<Rightarrow> int" where
  "days_in_month y m =
     (if m = 2 then (if y mod 4 = 0 \<and> (y mod 100 \<noteq> 0 \<or> y mod 400 = 0) then 29 else 28)
      else if m \<in> {4, 6, 9, 11} then 30 else 31)"

definition parse_iso :: "string \<Rightarrow> int option" where
  "parse_iso s =
     (if length s = 24 \<and>
         matches_prefix [Digit, Digit, Digit, Digit, Lit CHR ''-'', Digit, Digit, Lit CHR ''-'',
                         Digit, Digit, Lit CHR ''T'', Digit, Digit, Lit CHR '':'', Digit, Digit,
                         Lit CHR '':'', Digit, Digit, Lit CHR ''.'', Digit, Digit, Digit,
                         Lit CHR ''Z''] s
      then (let y = digits_val (take 4 s); m = digits_val (take 2 (drop 5 s));
                d = digits_val (take 2 (drop 8 s)); h = digits_val (take 2 (drop 11 s));
                mi = digits_val (take 2 (drop 14 s)); sec = digits_val (take 2 (drop 17 s));
                ms = digits_val (take 3 (drop 20 s))
            in if 1 \<le> m \<and> m \<le> 12 \<and> 1 \<le> d \<and> d \<le> days_in_month y m
                  \<and> h \<le> 23 \<and> mi \<le> 59 \<and> sec \<le> 59
               then Some (days_from_civil y m d * 86400000 + h * 3600000 + mi * 60000
                          + sec * 1000 + ms)
               else None)
      else None)"

fun utc_fields :: "int \<times> int \<times> int \<Rightarrow> int \<Rightarrow> int \<Rightarrow> string" where
  "utc_fields (y, m, d) days ms =
     [''Sun'', ''Mon'', ''Tue'', ''Wed'', ''Thu'', ''Fri'', ''Sat''] ! nat ((days + 4) mod 7)
     @ '' ''
     @ [''Jan'', ''Feb'', ''Mar'', ''Apr'', ''May'', ''Jun'', ''Jul'', ''Aug'', ''Sep'',
        ''Oct'', ''Nov'', ''Dec''] ! nat (m - 1)
     @ '' '' @ pad 2 d @ '' '' @ (if y < 0 then ''-'' else []) @ pad 4 \<bar>y\<bar>
     @ '' '' @ clock_str ms @ '' GMT+0000 (Coordinated Universal Time)''"

fun utc_string :: "int option \<Rightarrow> string" where
  "utc_string None = ''Invalid Date''"
| "utc_string (Some t) =
     utc_fields (civil_from_days (t div 86400000)) (t div 86400000) (t mod 86400000)"

definition reference_host :: platform where
  "reference_host = \<lparr> toISOString = iso_string, Date_parse = parse_iso, Date_toString = utc_string \<rparr>"

subsection \<open>Predicates on values\<close>


text \<open>
  A string that the immediate decoder turns into a date: it matches the pattern and the
  engine's parser accepts it.
\<close>

definition reads_as_date :: "platform \<Rightarrow> string \<Rightarrow> bool" where
  "reads_as_date P s = (iso_date_prefix s \<and> Date_parse P s \<noteq> None)"


text \<open>No string that the immediate decoder visits in the value reads as a date.\<close>

fun date_free :: "platform \<Rightarrow> jsval \<Rightarrow> bool"
  and date_free_elems :: "platform \<Rightarrow> jsval list \<Rightarrow> bool"
  and date_free_entries :: "platform \<Rightarrow> (string \<times> jsval) list \<Rightarrow> bool"
where
  "date_free P (JStr s) = (\<not> reads_as_date P s)"
| "date_free P (JArr xs) = date_free_elems P xs"
| "date_free P (JObj kvs) = (is_media (JObj kvs) \<or> date_free_entries P kvs)"
| "date_free P JUndefined = True"
| "date_free P JNull = True"
| "date_free P (JBool b) = True"
| "date_free P (JNum n) = True"
| "date_free P (JDate d) = True"
| "date_free P (JPath s) = True"
| "date_free P (JArrayBuffer bs) = True"
| "date_free P (JView xs) = True"
| "date_free P (JSet xs) = True"
| "date_free P (JOther b s kvs) = True"
| "date_free_elems P [] = True"
| "date_free_elems P (x # xs) = (date_free P x \<and> date_free_elems P xs)"
| "date_free_entries P [] = True"
| "date_free_entries P ((k, v) # kvs) = (date_free P v \<and> date_free_entries P kvs)"

subsection \<open>Relations used in the proofs about the codec\<close>




section \<open>Event dispatcher and connection manager (lines 49 to 142)\<close>

text \<open>
  A listener is a function object; \<^verbatim>\<open>l !== listener\<close> compares identities, so a listener
  is modelled by a number that identifies it. What a call of a listener does is given
  by a parameter \<open>run\<close>: \<open>run l d s\<close> is \<open>Inr s'\<close> when listener \<open>l\<close>, called with \<open>d\<close>
  in state \<open>s\<close>, returns and leaves the state \<open>s'\<close>, and \<open>Inl (e, s')\<close> when it throws
  \<open>e\<close> after changing the state to \<open>s'\<close>.
\<close>

type_synonym listener = nat

datatype ready_state = CONNECTING | OPEN | CLOSING | CLOSED

record socket =
  readyState :: ready_state
  subprotocols :: "string list"

datatype diagnostic = NoUrlConfigured | ConnectionNotOpen | InvalidMessage string

text \<open>
  The values substituted for the \<^verbatim>\<open>__TEMPLATE_...__\<close> placeholders, and the \<^verbatim>\<open>config\<close>
  object built from them: \<^verbatim>\<open>x || 3000\<close> replaces a missing or zero interval,
  \<^verbatim>\<open>x ?? true\<close> a missing flag.
\<close>

record template =
  url :: string
  t_protocols :: "string list option"
  t_reconnect_interval :: "nat option"
  t_auto_reconnect :: "bool option"

record config =
  protocols :: "string list option"
  reconnectInterval :: nat
  autoReconnect :: bool

definition config :: "template \<Rightarrow> config" where
  "config T =
     \<lparr> protocols = t_protocols T,
       reconnectInterval =
         (case t_reconnect_interval T of None \<Rightarrow> 3000 | Some n \<Rightarrow> if n = 0 then 3000 else n),
       autoReconnect = (case t_auto_reconnect T of None \<Rightarrow> True | Some b \<Rightarrow> b) \<rparr>"

text \<open>
  The variables of the first closure. \<open>sockets\<close> holds every WebSocket object created so
  far (each keeps the handlers that \<^verbatim>\<open>connect\<close> installed on it) and \<open>ws\<close> is the index
  of the current one; \<open>timers\<close> holds the timeouts that are scheduled and have neither
  fired nor been cleared, as handle and delay; \<open>wire\<close> holds the frames handed to
  \<^verbatim>\<open>ws.send\<close>, as the socket and the value given to \<^verbatim>\<open>JSON.stringify\<close>; \<open>console\<close> holds
  the diagnostics printed.
\<close>

record conn =
  ws :: "nat option"
  sockets :: "socket list"
  eventListeners :: "string \<rightharpoonup> listener list"
  reconnectTimer :: "nat option"
  shouldReconnect :: bool
  timers :: "(nat \<times> nat) list"
  timer_count :: nat
  wire :: "(nat \<times> jsval) list"
  console :: "diagnostic list"

definition initial_conn :: conn where
  "initial_conn =
     \<lparr> ws = None, sockets = [], eventListeners = Map.empty, reconnectTimer = None,
       shouldReconnect = True, timers = [], timer_count = 0, wire = [], console = [] \<rparr>"

text \<open>
  \<^verbatim>\<open>eventListeners\<close> is an object literal, so a name that has no list of its own still
  reads a property of \<^verbatim>\<open>Object.prototype\<close> if it is one of \<open>object_prototype_names\<close>:
  a function or, for \<^verbatim>\<open>__proto__\<close>, the prototype itself. These values are truthy and
  have neither \<^verbatim>\<open>push\<close> nor \<^verbatim>\<open>filter\<close>, so that \<^verbatim>\<open>on\<close> and \<^verbatim>\<open>off\<close> throw a TypeError
  on such a name. \<open>eventListeners s event\<close> is the list that the object holds as its own
  property.
\<close>

definition object_prototype_names :: "string list" where
  "object_prototype_names =
     [''constructor'', ''__defineGetter__'', ''__defineSetter__'', ''hasOwnProperty'',
      ''__lookupGetter__'', ''__lookupSetter__'', ''isPrototypeOf'', ''propertyIsEnumerable'',
      ''toString'', ''valueOf'', ''__proto__'', ''toLocaleString'']"

definition addEventListener ::
  "string \<Rightarrow> listener \<Rightarrow> 'a conn_scheme \<Rightarrow> js_error + 'a conn_scheme" where
  "addEventListener event l s =
     (case eventListeners s event of
        None \<Rightarrow>
          if event \<in> set object_prototype_names then Inl TypeError
          else Inr (s\<lparr>eventListeners := (eventListeners s)(event \<mapsto> [l])\<rparr>)
      | Some ls \<Rightarrow> Inr (s\<lparr>eventListeners := (eventListeners s)(event \<mapsto> ls @ [l])\<rparr>))"

definition removeEventListener ::
  "string \<Rightarrow> listener \<Rightarrow> 'a conn_scheme \<Rightarrow> js_error + 'a conn_scheme" where
  "removeEventListener event l s =
     (case eventListeners s event of
        None \<Rightarrow> if event \<in> set object_prototype_names then Inl TypeError else Inr s
      | Some ls \<Rightarrow>
          Inr (s\<lparr>eventListeners := (eventListeners s)(event \<mapsto> filter (\<lambda>x. x \<noteq> l) ls)\<rparr>))"

text \<open>
  \<^verbatim>\<open>forEach\<close> calls the listeners in order; there is no \<^verbatim>\<open>try\<close> around the call, so the
  first exception ends the loop and leaves \<^verbatim>\<open>dispatchEvent\<close>. \<open>invoked\<close> is the list of
  the listeners that get called. \<^verbatim>\<open>dispatchEvent\<close> is private: the code calls it with the
  names \<^verbatim>\<open>open\<close>, \<^verbatim>\<open>message\<close>, \<^verbatim>\<open>error\<close> and \<^verbatim>\<open>close\<close> only, none of which is inherited.
\<close>

fun forEach :: "('a \<Rightarrow> 's \<Rightarrow> ('e \<times> 's) + 's) \<Rightarrow> 'a list \<Rightarrow> 's \<Rightarrow> ('e \<times> 's) + 's" where
  "forEach f [] s = Inr s"
| "forEach f (x # xs) s = (case f x s of Inl thrown \<Rightarrow> Inl thrown | Inr s' \<Rightarrow> forEach f xs s')"

fun invoked :: "('a \<Rightarrow> 's \<Rightarrow> ('e \<times> 's) + 's) \<Rightarrow> 'a list \<Rightarrow> 's \<Rightarrow> 'a list" where
  "invoked f [] s = []"
| "invoked f (x # xs) s = x # (case f x s of Inl thrown \<Rightarrow> [] | Inr s' \<Rightarrow> invoked f xs s')"

definition dispatchEvent ::
  "(listener \<Rightarrow> 'd \<Rightarrow> 'a conn_scheme \<Rightarrow> ('e \<times> 'a conn_scheme) + 'a conn_scheme) \<Rightarrow>
   string \<Rightarrow> 'd \<Rightarrow> 'a conn_scheme \<Rightarrow> ('e \<times> 'a conn_scheme) + 'a conn_scheme" where
  "dispatchEvent run event d s =
     (case eventListeners s event of
        None \<Rightarrow> Inr s
      | Some ls \<Rightarrow> forEach (\<lambda>l. run l d) ls s)"

definition dispatched ::
  "(listener \<Rightarrow> 'd \<Rightarrow> 'a conn_scheme \<Rightarrow> ('e \<times> 'a conn_scheme) + 'a conn_scheme) \<Rightarrow>
   string \<Rightarrow> 'd \<Rightarrow> 'a conn_scheme \<Rightarrow> listener list" where
  "dispatched run event d s =
     (case eventListeners s event of
        None \<Rightarrow> []
      | Some ls \<Rightarrow> invoked (\<lambda>l. run l d) ls s)"

text \<open>
  \<^verbatim>\<open>connect\<close>: without a URL it prints a diagnostic and returns; otherwise it creates a
  socket (with the subprotocols if \<^verbatim>\<open>config.protocols\<close> is set) and makes it current. The
  URL and the subprotocols are taken to be well formed, so that the constructor does
  not throw.
\<close>

definition connect :: "template \<Rightarrow> 'a conn_scheme \<Rightarrow> 'a conn_scheme" where
  "connect T s =
     (if url T = [] then s\<lparr>console := console s @ [NoUrlConfigured]\<rparr>
      else
        (let s1 = s\<lparr>shouldReconnect := autoReconnect (config T)\<rparr>;
             new = (case protocols (config T) of
                      Some ps \<Rightarrow> \<lparr>readyState = CONNECTING, subprotocols = ps\<rparr>
                    | None \<Rightarrow> \<lparr>readyState = CONNECTING, subprotocols = []\<rparr>)
         in s1\<lparr>ws := Some (length (sockets s1)), sockets := sockets s1 @ [new]\<rparr>))"

text \<open>The \<^verbatim>\<open>readyState\<close> of the current socket, if there is one.\<close>

definition current_state :: "'a conn_scheme \<Rightarrow> ready_state option" where
  "current_state s =
     (case ws s of
        None \<Rightarrow> None
      | Some k \<Rightarrow> if k < length (sockets s) then Some (readyState (sockets s ! k)) else None)"

definition is_connected :: "'a conn_scheme \<Rightarrow> bool" where
  "is_connected s = (current_state s = Some OPEN)"

definition is_disconnected :: "'a conn_scheme \<Rightarrow> bool" where
  "is_disconnected s = (ws s = None \<or> current_state s = Some CLOSED)"

text \<open>
  \<^verbatim>\<open>send\<close>: on an open connection the value is encoded by the copy of the codec at the
  top of the file and handed to the socket; otherwise a warning is printed. An exception
  of the codec leaves \<^verbatim>\<open>send\<close>.
\<close>

definition send :: "platform \<Rightarrow> jsval \<Rightarrow> 'a conn_scheme \<Rightarrow> (js_error \<times> 'a conn_scheme) + 'a conn_scheme" where
  "send P data s =
     (case ws s of
        None \<Rightarrow> Inr (s\<lparr>console := console s @ [ConnectionNotOpen]\<rparr>)
      | Some k \<Rightarrow>
          if current_state s = Some OPEN
          then (case jsonMakeObjectSafe_cm P data of
                  Inl e \<Rightarrow> Inl (e, s)
                | Inr v \<Rightarrow> Inr (s\<lparr>wire := wire s @ [(k, v)]\<rparr>))
          else Inr (s\<lparr>console := console s @ [ConnectionNotOpen]\<rparr>))"

text \<open>
  \<^verbatim>\<open>close\<close>: the flag is cleared and the timeout whose handle is in \<^verbatim>\<open>reconnectTimer\<close> is
  cancelled, then the current socket is closed. \<^verbatim>\<open>ws.close(code, reason)\<close> throws on a
  code that is neither 1000 nor in 3000 to 4999 and on a reason longer than 123 bytes;
  on a socket that is closing or closed it does nothing.
\<close>

definition socket_close :: "nat \<Rightarrow> string \<Rightarrow> socket \<Rightarrow> js_error + socket" where
  "socket_close code reason w =
     (if code \<noteq> 1000 \<and> \<not> (3000 \<le> code \<and> code \<le> 4999) then Inl InvalidAccessError
      else if 123 < length reason then Inl SyntaxError
      else if readyState w = CLOSING \<or> readyState w = CLOSED then Inr w
      else Inr (w\<lparr>readyState := CLOSING\<rparr>))"

definition clearTimeout :: "nat option \<Rightarrow> (nat \<times> nat) list \<Rightarrow> (nat \<times> nat) list" where
  "clearTimeout h ts = filter (\<lambda>t. Some (fst t) \<noteq> h) ts"

definition close :: "nat \<Rightarrow> string \<Rightarrow> 'a conn_scheme \<Rightarrow> (js_error \<times> 'a conn_scheme) + 'a conn_scheme" where
  "close code reason s =
     (let s1 = s\<lparr>shouldReconnect := False, timers := clearTimeout (reconnectTimer s) (timers s)\<rparr>
      in case ws s1 of
           None \<Rightarrow> Inr s1
         | Some k \<Rightarrow>
             if k < length (sockets s1)
             then (case socket_close code reason (sockets s1 ! k) of
                     Inl e \<Rightarrow> Inl (e, s1)
                   | Inr w \<Rightarrow> Inr (s1\<lparr>sockets := (sockets s1)[k := w]\<rparr>))
             else Inr s1)"

text \<open>
  The handler \<^verbatim>\<open>ws.onclose\<close>: the listeners of \<^verbatim>\<open>close\<close> run first; if they return and
  \<^verbatim>\<open>shouldReconnect\<close> is set, a timeout for \<^verbatim>\<open>connect\<close> is scheduled after
  \<^verbatim>\<open>config.reconnectInterval\<close> and its handle stored, whatever handle was there before.
\<close>

definition setTimeout_connect :: "template \<Rightarrow> 'a conn_scheme \<Rightarrow> 'a conn_scheme" where
  "setTimeout_connect T s =
     s\<lparr>reconnectTimer := Some (timer_count s),
       timers := timers s @ [(timer_count s, reconnectInterval (config T))],
       timer_count := Suc (timer_count s)\<rparr>"

definition onclose ::
  "(listener \<Rightarrow> 'd \<Rightarrow> 'a conn_scheme \<Rightarrow> ('e \<times> 'a conn_scheme) + 'a conn_scheme) \<Rightarrow>
   template \<Rightarrow> 'd \<Rightarrow> 'a conn_scheme \<Rightarrow> ('e \<times> 'a conn_scheme) + 'a conn_scheme" where
  "onclose run T e s =
     (case dispatchEvent run ''close'' e s of
        Inl thrown \<Rightarrow> Inl thrown
      | Inr s' \<Rightarrow> Inr (if shouldReconnect s' then setTimeout_connect T s' else s'))"

text \<open>
  What the environment and the application can make happen: a socket opens, delivers a
  message, reports an error or closes (its handler runs), a timeout fires (\<^verbatim>\<open>connect\<close>
  runs), or the application calls \<^verbatim>\<open>connect\<close> or \<^verbatim>\<open>close\<close>. An exception that leaves a
  handler is reported by the event loop and the state stays as the handler left it.
  \<open>step\<close> is \<open>None\<close> when the event cannot happen in the state: a socket opens only
  while connecting, it closes once, and a timeout fires only while it is scheduled.
\<close>

datatype 'd event =
    SocketOpened nat 'd
  | SocketMessage nat 'd
  | SocketError nat 'd
  | SocketClosed nat 'd
  | TimerFired nat
  | CallConnect
  | CallClose nat string

fun after :: "('e \<times> 's) + 's \<Rightarrow> 's" where
  "after (Inl (e, s)) = s"
| "after (Inr s) = s"

definition set_ready :: "nat \<Rightarrow> ready_state \<Rightarrow> 'a conn_scheme \<Rightarrow> 'a conn_scheme" where
  "set_ready k r s = s\<lparr>sockets := (sockets s)[k := (sockets s ! k)\<lparr>readyState := r\<rparr>]\<rparr>"

fun step ::
  "(listener \<Rightarrow> 'd \<Rightarrow> 'a conn_scheme \<Rightarrow> ('e \<times> 'a conn_scheme) + 'a conn_scheme) \<Rightarrow>
   template \<Rightarrow> 'd event \<Rightarrow> 'a conn_scheme \<Rightarrow> 'a conn_scheme option" where
  "step run T (SocketOpened k e) s =
     (if k < length (sockets s) \<and> readyState (sockets s ! k) = CONNECTING
      then Some (after (dispatchEvent run ''open'' e (set_ready k OPEN s))) else None)"
| "step run T (SocketMessage k e) s =
     (if k < length (sockets s) \<and> readyState (sockets s ! k) = OPEN
      then Some (after (dispatchEvent run ''message'' e s)) else None)"
| "step run T (SocketError k e) s =
     (if k < length (sockets s) \<and> readyState (sockets s ! k) \<noteq> CLOSED
      then Some (after (dispatchEvent run ''error'' e s)) else None)"
| "step run T (SocketClosed k e) s =
     (if k < length (sockets s) \<and> readyState (sockets s ! k) \<noteq> CLOSED
      then Some (after (onclose run T e (set_ready k CLOSED s))) else None)"
| "step run T (TimerFired h) s =
     (if h \<in> fst ` set (timers s)
      then Some (connect T (s\<lparr>timers := clearTimeout (Some h) (timers s)\<rparr>)) else None)"
| "step run T CallConnect s = Some (connect T s)"
| "step run T (CallClose code reason) s = Some (after (close code reason s))"

fun steps ::
  "(listener \<Rightarrow> 'd \<Rightarrow> 'a conn_scheme \<Rightarrow> ('e \<times> 'a conn_scheme) + 'a conn_scheme) \<Rightarrow>
   template \<Rightarrow> 'd event list \<Rightarrow> 'a conn_scheme \<Rightarrow> 'a conn_scheme option" where
  "steps run T [] s = Some s"
| "steps run T (ev # evs) s = (case step run T ev s of None \<Rightarrow> None | Some s' \<Rightarrow> steps run T evs s')"

text \<open>
  Listeners that leave the connection alone: a call changes neither the sockets nor the
  timers nor the reconnect variables (a listener that calls \<^verbatim>\<open>connect\<close> or \<^verbatim>\<open>close\<close> does).
  \<open>quiet\<close> is the listener that does nothing at all.
\<close>

definition link ::
  "'a conn_scheme \<Rightarrow> nat option \<times> socket list \<times> nat option \<times> bool \<times> (nat \<times> nat) list \<times> nat" where
  "link s = (ws s, sockets s, reconnectTimer s, shouldReconnect s, timers s, timer_count s)"

definition passive_listeners ::
  "(listener \<Rightarrow> 'd \<Rightarrow> 'a conn_scheme \<Rightarrow> ('e \<times> 'a conn_scheme) + 'a conn_scheme) \<Rightarrow> bool" where
  "passive_listeners run = (\<forall>l d s. link (after (run l d s)) = link s)"

definition quiet :: "listener \<Rightarrow> jsval \<Rightarrow> conn \<Rightarrow> (jsval \<times> conn) + conn" where
  "quiet l d s = Inr s"

text \<open>The sockets that have not closed yet.\<close>

definition live :: "'a conn_scheme \<Rightarrow> nat" where
  "live s = length (filter (\<lambda>w. readyState w \<noteq> CLOSED) (sockets s))"

text \<open>
  The number of timeouts that are scheduled plus the number of sockets that have not
  closed; an example template (no subprotocols, default interval and flag); and a
  listener table in which listener 2 throws.
\<close>

definition budget :: "'a conn_scheme \<Rightarrow> nat" where
  "budget s = length (timers s) + live s"

definition local_template :: template where
  "local_template = \<lparr> url = ''ws://127.0.0.1:8765'', t_protocols = None,
                       t_reconnect_interval = None, t_auto_reconnect = None \<rparr>"

definition faulty :: "listener \<Rightarrow> jsval \<Rightarrow> conn \<Rightarrow> (jsval \<times> conn) + conn" where
  "faulty l d s = (if l = 2 then Inl (JStr ''boom'', s) else Inr s)"

text \<open>The connection manager after load with the listeners \<open>ls\<close> registered for one event.\<close>

definition listening :: "string \<Rightarrow> listener list \<Rightarrow> conn" where
  "listening event ls = initial_conn\<lparr>eventListeners := [event \<mapsto> ls]\<rparr>"

section \<open>Invocation broker (lines 159 to 334)\<close>

text \<open>
  A deferred result (a promise) is pending until it is fulfilled or rejected, and settles
  once. The callbacks that \<^verbatim>\<open>invoke\<close> registers are the two closures
  \<^verbatim>\<open>(result) => resolve(result)\<close> and \<^verbatim>\<open>(error) => reject(error)\<close> of a promise, which is
  identified by its index in \<open>promises\<close>. A rejection carries the \<^verbatim>\<open>Error\<close> object that
  \<^verbatim>\<open>invoke\<close> creates (\<open>Failure\<close> with its message), an exception thrown in the executor
  of the promise (\<open>Thrown\<close>), or the decoded error payload of the peer (\<open>Remote\<close>).
\<close>

datatype reason = Failure string | Thrown js_error | Remote jsval

datatype outcome = Pending | Fulfilled jsval | Rejected reason

datatype callback = Resolve nat | Reject nat

record resolver =
  callback :: "callback option"
  once :: bool

text \<open>
  The state of the second closure extends the state of the connection: \<open>window\<close> holds
  the properties that \<^verbatim>\<open>transformCallback\<close> defines on \<^verbatim>\<open>window\<close> (its other
  properties are a parameter of the message listener), \<open>entropy\<close> is the sequence of numbers that
  \<^verbatim>\<open>crypto.getRandomValues\<close> delivers and \<open>drawn\<close> counts how many have been taken.
\<close>

record bridge = conn +
  window :: "string \<rightharpoonup> resolver"
  promises :: "outcome list"
  entropy :: "nat \<Rightarrow> 32 word"
  drawn :: nat

definition uid :: "bridge \<Rightarrow> 32 word \<times> bridge" where
  "uid s = (entropy s (drawn s), s\<lparr>drawn := Suc (drawn s)\<rparr>)"

text \<open>The property name \<^verbatim>\<open>`_${identifier}`\<close> of an identifier.\<close>

definition prop_name :: "32 word \<Rightarrow> string" where
  "prop_name identifier = CHR ''_'' # dec_pos (uint identifier)"

text \<open>\<^verbatim>\<open>resolve\<close> and \<^verbatim>\<open>reject\<close> settle a promise that is pending and do nothing otherwise.\<close>

definition settle :: "nat \<Rightarrow> outcome \<Rightarrow> bridge \<Rightarrow> bridge" where
  "settle p out s =
     (if p < length (promises s) \<and> promises s ! p = Pending
      then s\<lparr>promises := (promises s)[p := out]\<rparr> else s)"

fun apply_callback :: "callback \<Rightarrow> jsval \<Rightarrow> bridge \<Rightarrow> bridge" where
  "apply_callback (Resolve p) v s = settle p (Fulfilled v) s"
| "apply_callback (Reject p) v s = settle p (Rejected (Remote v)) s"

text \<open>
  \<^verbatim>\<open>callback.constructor.name === "AsyncFunction"\<close>: both closures are arrow functions
  that are not async.
\<close>

fun is_async_function :: "callback \<Rightarrow> bool" where
  "is_async_function (Resolve p) = False"
| "is_async_function (Reject p) = False"

text \<open>
  \<^verbatim>\<open>transformCallback\<close> draws an identifier and defines the property that holds the
  wrapper; a property of the same name is replaced. It returns the identifier.
\<close>

definition transformCallback :: "callback option \<Rightarrow> bool \<Rightarrow> bridge \<Rightarrow> 32 word \<times> bridge" where
  "transformCallback cb onc s =
     (case uid s of
        (identifier, s1) \<Rightarrow>
          (identifier,
           s1\<lparr>window := (window s1)(prop_name identifier \<mapsto> \<lparr>callback = cb, once = onc\<rparr>)\<rparr>))"

text \<open>
  \<^verbatim>\<open>`${v}`\<close> throws a TypeError when \<open>v\<close> is a plain object with an own property
  \<^verbatim>\<open>toString\<close> (in a value that JSON carries no property is a function, and the inherited
  \<^verbatim>\<open>valueOf\<close> returns the object), or an array with such an element. The decoders throw on
  one kind of argument only: a media object whose \<^verbatim>\<open>media_type\<close> or \<^verbatim>\<open>bytes\<close> is such a
  value, at any depth.
\<close>

fun coerce_throws :: "jsval \<Rightarrow> bool"
  and coerce_throws_elems :: "jsval list \<Rightarrow> bool"
where
  "coerce_throws (JObj kvs) = (''toString'' \<in> set (map fst kvs))"
| "coerce_throws (JArr xs) = coerce_throws_elems xs"
| "coerce_throws JUndefined = False"
| "coerce_throws JNull = False"
| "coerce_throws (JBool b) = False"
| "coerce_throws (JNum n) = False"
| "coerce_throws (JStr s) = False"
| "coerce_throws (JDate d) = False"
| "coerce_throws (JPath s) = False"
| "coerce_throws (JArrayBuffer bs) = False"
| "coerce_throws (JView xs) = False"
| "coerce_throws (JSet xs) = False"
| "coerce_throws (JOther b s kvs) = False"
| "coerce_throws_elems [] = False"
| "coerce_throws_elems (x # xs) = (coerce_throws x \<or> coerce_throws_elems xs)"

fun restore_throws :: "jsval \<Rightarrow> bool"
  and restore_throws_elems :: "jsval list \<Rightarrow> bool"
  and restore_throws_entries :: "(string \<times> jsval) list \<Rightarrow> bool"
where
  "restore_throws (JArr xs) = restore_throws_elems xs"
| "restore_throws (JObj kvs) =
     (if is_media (JObj kvs)
      then coerce_throws (get_prop (JObj kvs) ''media_type'')
           \<or> coerce_throws (get_prop (JObj kvs) ''bytes'')
      else restore_throws_entries kvs)"
| "restore_throws JUndefined = False"
| "restore_throws JNull = False"
| "restore_throws (JBool b) = False"
| "restore_throws (JNum n) = False"
| "restore_throws (JStr s) = False"
| "restore_throws (JDate d) = False"
| "restore_throws (JPath s) = False"
| "restore_throws (JArrayBuffer bs) = False"
| "restore_throws (JView xs) = False"
| "restore_throws (JSet xs) = False"
| "restore_throws (JOther b s kvs) = False"
| "restore_throws_elems [] = False"
| "restore_throws_elems (x # xs) = (restore_throws x \<or> restore_throws_elems xs)"
| "restore_throws_entries [] = False"
| "restore_throws_entries ((k, v) # kvs) = (restore_throws v \<or> restore_throws_entries kvs)"

text \<open>
  The wrapper that \<^verbatim>\<open>transformCallback\<close> defines is an async function: it runs up to its
  first \<^verbatim>\<open>await\<close> inside the call, and an exception in it rejects the promise that it
  returns, so that none reaches the caller. It first deletes its property if it is
  one-shot, then decodes the argument and calls the callback with it; when the decoder
  throws the callback is not called. With a callback that is not async all of this
  happens before the call returns.
\<close>

definition run_wrapper :: "platform \<Rightarrow> string \<Rightarrow> resolver \<Rightarrow> jsval \<Rightarrow> bridge \<Rightarrow> bridge" where
  "run_wrapper P prop r arg s =
     (let s1 = (if once r then s\<lparr>window := (window s)(prop := None)\<rparr> else s)
      in case callback r of
           None \<Rightarrow> s1
         | Some cb \<Rightarrow>
             if is_async_function cb
             then (if restore_throws arg then s1
                   else apply_callback cb (jsonRestoreObjectAsync P arg) s1)
             else (if restore_throws arg then s1
                   else apply_callback cb (jsonRestoreObjectSync P arg) s1))"

text \<open>
  The registry is the object \<^verbatim>\<open>window\<close>, which has properties that the bridge does not
  define: a read \<^verbatim>\<open>window[prop]\<close> of a name without a resolver finds them, own or
  inherited (\<^verbatim>\<open>window["__proto__"]\<close> is the prototype of \<^verbatim>\<open>window\<close>). They are the parameter
  \<open>G\<close> of the listener: \<open>G prop\<close> is \<open>None\<close> when \<^verbatim>\<open>window[prop]\<close> is falsy, and otherwise
  tells what the call \<^verbatim>\<open>window[prop](arg)\<close> does: it throws a TypeError when the value is
  not a function, and it returns or throws when the value is one. Such a function is
  taken to leave the state of the bridge alone.

  A call \<^verbatim>\<open>window[prop](arg)\<close>, guarded by \<^verbatim>\<open>if (window[prop])\<close>: nothing happens when the
  property is falsy.
\<close>

datatype foreign = NotCallable | Returns | Throws js_error

definition call_property ::
  "platform \<Rightarrow> (string \<Rightarrow> foreign option) \<Rightarrow> string \<Rightarrow> jsval \<Rightarrow> bridge \<Rightarrow>
   (js_error \<times> bridge) + bridge" where
  "call_property P G prop arg s =
     (case window s prop of
        Some r \<Rightarrow> Inr (run_wrapper P prop r arg s)
      | None \<Rightarrow>
          (case G prop of
             None \<Rightarrow> Inr s
           | Some NotCallable \<Rightarrow> Inl (TypeError, s)
           | Some Returns \<Rightarrow> Inr s
           | Some (Throws e) \<Rightarrow> Inl (e, s)))"

text \<open>\<^verbatim>\<open>args ?? {}\<close>.\<close>

fun nullish_default :: "jsval \<Rightarrow> jsval" where
  "nullish_default JNull = JObj []"
| "nullish_default JUndefined = JObj []"
| "nullish_default v = v"

text \<open>
  \<^verbatim>\<open>invoke\<close> creates a promise and runs its executor; the result is the index of the
  promise and the new state. An exception in the executor rejects the promise.
\<close>

definition invoke :: "platform \<Rightarrow> jsval \<Rightarrow> jsval \<Rightarrow> bridge \<Rightarrow> nat \<times> bridge" where
  "invoke P cmd args s =
     (let p = length (promises s);
          s0 = s\<lparr>promises := promises s @ [Pending]\<rparr>
      in if \<not> is_connected s0
         then (p, settle p (Rejected (Failure ''Socket is not connected or unavailable!'')) s0)
         else
           (case jsonMakeObjectSafe P (nullish_default args) of
              Inl e \<Rightarrow> (p, settle p (Rejected (Thrown e)) s0)
            | Inr py_args \<Rightarrow>
                (case transformCallback (Some (Resolve p)) True s0 of
                   (result_id, s1) \<Rightarrow>
                     (case transformCallback (Some (Reject p)) True s1 of
                        (error_id, s2) \<Rightarrow>
                          (case send P (JObj [(''cmd'', cmd),
                                              (''result_id'', JNum (uint result_id)),
                                              (''error_id'', JNum (uint error_id)),
                                              (''payload'', py_args)]) s2 of
                             Inl (e, s3) \<Rightarrow> (p, settle p (Rejected (Thrown e)) s3)
                           | Inr s3 \<Rightarrow> (p, s3))))))"

text \<open>
  The listener for \<^verbatim>\<open>message\<close>. Its arguments are the frame and what \<^verbatim>\<open>JSON.parse\<close> makes
  of it (\<open>None\<close> when it throws). One \<^verbatim>\<open>try\<close> holds the whole body: an exception from
  \<^verbatim>\<open>JSON.parse\<close>, from the codec, from destructuring \<^verbatim>\<open>null\<close>, from a template literal
  or from a call \<^verbatim>\<open>window[prop](arg)\<close> ends the body there and prints the warning, so that
  an exception in the block of \<^verbatim>\<open>result_id\<close> skips the block of \<^verbatim>\<open>error_id\<close>.
  \<open>handle_id\<close> is one of the two blocks.
\<close>

definition handle_id ::
  "platform \<Rightarrow> (string \<Rightarrow> foreign option) \<Rightarrow> jsval \<Rightarrow> jsval \<Rightarrow> bridge \<Rightarrow>
   (js_error \<times> bridge) + bridge" where
  "handle_id P G ident arg s =
     (if truthy ident
      then (if coerce_throws ident then Inl (TypeError, s)
            else call_property P G (''_'' @ toStr P ident) arg s)
      else Inr s)"

definition handle_ids ::
  "platform \<Rightarrow> (string \<Rightarrow> foreign option) \<Rightarrow> jsval \<Rightarrow> bridge \<Rightarrow> (js_error \<times> bridge) + bridge" where
  "handle_ids P G data s =
     (case handle_id P G (get_prop data ''result_id'') (get_prop data ''result'') s of
        Inl thrown \<Rightarrow> Inl thrown
      | Inr s1 \<Rightarrow> handle_id P G (get_prop data ''error_id'') (get_prop data ''error'') s1)"

definition on_message ::
  "platform \<Rightarrow> (string \<Rightarrow> foreign option) \<Rightarrow> string \<Rightarrow> jsval option \<Rightarrow> bridge \<Rightarrow> bridge" where
  "on_message P G raw parsed s =
     (case parsed of
        None \<Rightarrow> s\<lparr>console := console s @ [InvalidMessage raw]\<rparr>
      | Some j \<Rightarrow>
          (case jsonMakeObjectSafe P j of
             Inl e \<Rightarrow> s\<lparr>console := console s @ [InvalidMessage raw]\<rparr>
           | Inr data \<Rightarrow>
               if data = JNull then s\<lparr>console := console s @ [InvalidMessage raw]\<rparr>
               else (case handle_ids P G data s of
                       Inl (e, s') \<Rightarrow> s'\<lparr>console := console s' @ [InvalidMessage raw]\<rparr>
                     | Inr s' \<Rightarrow> s')))"

text \<open>
  The identifiers that a message bears (the truthy ones among its \<^verbatim>\<open>result_id\<close> and
  \<^verbatim>\<open>error_id\<close>) and the property name that the listener looks up for an identifier.
\<close>

definition ids_of :: "jsval \<Rightarrow> jsval list" where
  "ids_of data = filter truthy [get_prop data ''result_id'', get_prop data ''error_id'']"

definition name_of :: "platform \<Rightarrow> jsval \<Rightarrow> string" where
  "name_of P ident = ''_'' @ toStr P ident"

text \<open>Every resolver in the registry is one-shot, as those that \<^verbatim>\<open>invoke\<close> registers are.\<close>

definition all_once :: "bridge \<Rightarrow> bool" where
  "all_once s = (\<forall>prop r. window s prop = Some r \<longrightarrow> once r)"

text \<open>
  An identifier is spent in a state when the block of the listener for it does nothing:
  the template literal returns, no resolver is registered under its name, and \<^verbatim>\<open>window\<close> has
  no other property of that name, or one that is a function that returns.
\<close>

definition spent :: "platform \<Rightarrow> (string \<Rightarrow> foreign option) \<Rightarrow> bridge \<Rightarrow> jsval \<Rightarrow> bool" where
  "spent P G s ident =
     (\<not> coerce_throws ident \<and> window s (name_of P ident) = None
      \<and> (G (name_of P ident) = None \<or> G (name_of P ident) = Some Returns))"

text \<open>
  JSON-safe values: what the codec returns, and what it leaves unchanged.
\<close>

fun is_safe :: "jsval \<Rightarrow> bool"
  and safe_list :: "jsval list \<Rightarrow> bool"
  and safe_values :: "(string \<times> jsval) list \<Rightarrow> bool"
where
  "is_safe JNull = True"
| "is_safe (JBool b) = True"
| "is_safe (JNum n) = True"
| "is_safe (JStr s) = True"
| "is_safe (JArr xs) = safe_list xs"
| "is_safe (JObj kvs) = (distinct (map fst kvs) \<and> safe_values kvs)"
| "is_safe JUndefined = False"
| "is_safe (JDate d) = False"
| "is_safe (JPath s) = False"
| "is_safe (JArrayBuffer bs) = False"
| "is_safe (JView xs) = False"
| "is_safe (JSet xs) = False"
| "is_safe (JOther b s kvs) = False"
| "safe_list [] = True"
| "safe_list (x # xs) = (is_safe x \<and> safe_list xs)"
| "safe_values [] = True"
| "safe_values ((k, v) # kvs) = (is_safe v \<and> safe_values kvs)"

text \<open>
  The values that \<^verbatim>\<open>JSON.parse\<close> returns, without objects that have a key \<^verbatim>\<open>__proto__\<close> or
  \<^verbatim>\<open>constructor\<close>.
\<close>

fun plain_json :: "jsval \<Rightarrow> bool"
  and plain_elems :: "jsval list \<Rightarrow> bool"
  and plain_entries :: "(string \<times> jsval) list \<Rightarrow> bool"
where
  "plain_json JNull = True"
| "plain_json (JBool b) = True"
| "plain_json (JNum n) = True"
| "plain_json (JStr s) = True"
| "plain_json (JArr xs) = plain_elems xs"
| "plain_json (JObj kvs) =
     (distinct (map fst kvs) \<and> \<not> list_ex reserved_key (map fst kvs) \<and> plain_entries kvs)"
| "plain_json JUndefined = False"
| "plain_json (JDate d) = False"
| "plain_json (JPath s) = False"
| "plain_json (JArrayBuffer bs) = False"
| "plain_json (JView xs) = False"
| "plain_json (JSet xs) = False"
| "plain_json (JOther b s kvs) = False"
| "plain_elems [] = True"
| "plain_elems (x # xs) = (plain_json x \<and> plain_elems xs)"
| "plain_entries [] = True"
| "plain_entries ((k, v) # kvs) = (plain_json v \<and> plain_entries kvs)"

text \<open>
  An example state: the bridge after load with its socket open, and a source of
  identifiers that delivers 1000, 1001 and so on.
\<close>

definition sample_entropy :: "nat \<Rightarrow> 32 word" where
  "sample_entropy n = 1000 + of_nat n"

definition fresh_bridge :: bridge where
  "fresh_bridge =
     \<lparr> ws = None, sockets = [], eventListeners = Map.empty, reconnectTimer = None,
       shouldReconnect = True, timers = [], timer_count = 0, wire = [], console = [],
       window = Map.empty, promises = [], entropy = sample_entropy, drawn = 0 \<rparr>"

definition open_bridge :: bridge where
  "open_bridge = set_ready 0 OPEN (connect local_template fresh_bridge)"

text \<open>
  A step from \<open>s\<close> to \<open>s'\<close> keeps what is settled: no promise is added or removed and
  every promise that is fulfilled or rejected in \<open>s\<close> has the same outcome in \<open>s'\<close>.
\<close>

definition settled_kept :: "bridge \<Rightarrow> bridge \<Rightarrow> bool" where
  "settled_kept s s' =
     (length (promises s') = length (promises s)
      \<and> (\<forall>p < length (promises s). promises s ! p \<noteq> Pending \<longrightarrow> promises s' ! p = promises s ! p))"

text \<open>Example arguments of \<^verbatim>\<open>invoke\<close> and two inbound messages of a peer.\<close>

definition echo_args :: jsval where
  "echo_args = JObj [(''value'', JNum 42)]"

definition result_frame :: jsval where
  "result_frame = JObj [(''result_id'', JNum 1000), (''result'', JNum 42)]"

definition error_frame :: jsval where
  "error_frame = JObj [(''error_id'', JNum 1001), (''error'', JStr ''late'')]"

text \<open>
  Three properties that \<^verbatim>\<open>window\<close> inherits in every browser and whose names start with an
  underscore: the prototype, which is not a function, and two functions that throw a
  TypeError when their second argument is not a function. A message whose \<^verbatim>\<open>result_id\<close> is
  the string \<^verbatim>\<open>_proto__\<close> makes the listener read the first.
\<close>

definition browser_globals :: "string \<Rightarrow> foreign option" where
  "browser_globals =
     [''__proto__'' \<mapsto> NotCallable, ''__defineGetter__'' \<mapsto> Throws TypeError,
      ''__defineSetter__'' \<mapsto> Throws TypeError]"

definition stray_frame :: jsval where
  "stray_frame =
     JObj [(''result_id'', JStr ''_proto__''), (''error_id'', JNum 1001), (''error'', JStr ''x'')]"

text \<open>
  Two sources of identifiers that \<^verbatim>\<open>crypto.getRandomValues\<close> can be: one delivers 1000 and
  then 0, the other 1000 every time; the open bridge with each of them; and an error
  message bearing the identifier 0.
\<close>

definition lopsided_entropy :: "nat \<Rightarrow> 32 word" where
  "lopsided_entropy n = (if n = 0 then 1000 else 0)"

definition constant_entropy :: "nat \<Rightarrow> 32 word" where
  "constant_entropy n = 1000"

definition lopsided_bridge :: bridge where
  "lopsided_bridge = open_bridge\<lparr>entropy := lopsided_entropy\<rparr>"

definition colliding_bridge :: bridge where
  "colliding_bridge = open_bridge\<lparr>entropy := constant_entropy\<rparr>"

definition zero_error_frame :: jsval where
  "zero_error_frame = JObj [(''error_id'', JNum 0), (''error'', JStr ''late'')]"

section \<open>Properties of the marshalling codec\<close>

subsection \<open>The loops of the codec as maps\<close>

lemma update_fresh: "k \<notin> fst ` set al \<Longrightarrow> AList.update k v al = al @ [(k, v)]"
  by (induction al) auto





text \<open>\<^verbatim>\<open>Array.from(obj, f)\<close> returns the images of the elements in order, or throws.\<close>

lemma safe_elems_Inr:
  "safe_elems P xs = Inr ys \<longleftrightarrow> list_all2 (\<lambda>x y. jsonMakeObjectSafe P x = Inr y) xs ys"
proof (induction xs arbitrary: ys)
  case Nil
  then show ?case by auto
next
  case (Cons x xs)
  show ?case
  proof (cases "jsonMakeObjectSafe P x")
    case (Inl e)
    then show ?thesis by (auto simp: list_all2_Cons1)
  next
    case (Inr y)
    show ?thesis
    proof (cases "safe_elems P xs")
      case (Inl e)
      with Inr Cons.IH show ?thesis by (auto simp: list_all2_Cons1)
    next
      case inr: (Inr zs)
      with Inr Cons.IH [of zs] Cons.IH show ?thesis by (auto simp: list_all2_Cons1)
    qed
  qed
qed


lemma restore_elems_map: "restore_elems P es = map (jsonRestoreObjectSync P) es"
  by (induction es) auto

lemma restore_elems_async_map: "restore_elems_async P es = map (jsonRestoreObjectAsync P) es"
  by (induction es) auto




subsection \<open>Round trip\<close>






subsection \<open>Sets\<close>

text \<open>
  The copy used by invoke encodes a set as the array of the encodings of its members, in
  iteration order; the copy used by \<^verbatim>\<open>send\<close> never reaches its branch for sets.
\<close>

lemma set_invoke_copy:
  "jsonMakeObjectSafe P (JSet xs) = Inr r \<longleftrightarrow>
     (\<exists>ys. r = JArr ys \<and> list_all2 (\<lambda>x y. jsonMakeObjectSafe P x = Inr y) xs ys)"
  by (auto simp: safe_elems_Inr [symmetric] split: sum.splits)

lemma set_send_copy: "jsonMakeObjectSafe_cm P (JSet xs) = Inr (JObj [])"
  by simp

text \<open>
  Claim C5 at the set of 1 and 2: the codec of \<^verbatim>\<open>send\<close> returns the empty object, where
  the claim (and the codec of invoke) give the array of 1 and 2.
\<close>

theorem send_codec_set_eval:
  "jsonMakeObjectSafe_cm reference_host (JSet [JNum 1, JNum 2]) = Inr (JObj [])
   \<and> jsonMakeObjectSafe reference_host (JSet [JNum 1, JNum 2]) = Inr (JArr [JNum 1, JNum 2])"
  by simp

subsection \<open>The two decoders\<close>

lemma toStr_parse_irrelevant:
  "toStr (P\<lparr>Date_parse := f\<rparr>) v = toStr P v"
  "elemStr (P\<lparr>Date_parse := f\<rparr>) v = elemStr P v"
  "elemStrs (P\<lparr>Date_parse := f\<rparr>) vs = elemStrs P vs"
  by (induction P v and P v and P vs rule: toStr_elemStr_elemStrs.induct) simp_all

lemma data_uri_parse_irrelevant: "data_uri (P\<lparr>Date_parse := f\<rparr>) obj = data_uri P obj"
  by (simp add: data_uri_def toStr_parse_irrelevant)

lemma async_is_sync_without_dates:
  "jsonRestoreObjectAsync P v = jsonRestoreObjectSync (P\<lparr>Date_parse := (\<lambda>s. None)\<rparr>) v"
  "restore_elems_async P vs = restore_elems (P\<lparr>Date_parse := (\<lambda>s. None)\<rparr>) vs"
  "restore_entries_async P kvs acc = restore_entries (P\<lparr>Date_parse := (\<lambda>s. None)\<rparr>) kvs acc"
  by (induction P v and P vs and P kvs acc
      rule: jsonRestoreObjectAsync_restore_elems_async_restore_entries_async.induct)
    (simp_all add: data_uri_parse_irrelevant)

lemma async_eq_sync_date_free:
  "date_free P v \<Longrightarrow> jsonRestoreObjectAsync P v = jsonRestoreObjectSync P v"
  "date_free_elems P vs \<Longrightarrow> restore_elems_async P vs = restore_elems P vs"
  "date_free_entries P kvs \<Longrightarrow> restore_entries_async P kvs acc = restore_entries P kvs acc"
  by (induction P v and P vs and P kvs acc
      rule: jsonRestoreObjectAsync_restore_elems_async_restore_entries_async.induct)
    (auto simp: reads_as_date_def split: option.splits)

text \<open>
  Claim C9, as amended. The deferred decoder is the immediate decoder without the parsing
  of dates: it returns what the immediate one returns on an engine whose parser rejects
  every string, so the two agree on every value in which no visited string reads as a
  date. Both turn a media object into the same data URI (the equation covers it) and
  both decode the elements of an array in order.
\<close>

theorem async_decode_vs_sync:
  "jsonRestoreObjectAsync P v = jsonRestoreObjectSync (P\<lparr>Date_parse := (\<lambda>s. None)\<rparr>) v
   \<and> (date_free P v \<longrightarrow> jsonRestoreObjectAsync P v = jsonRestoreObjectSync P v)
   \<and> jsonRestoreObjectAsync P (JArr xs) = JArr (map (jsonRestoreObjectAsync P) xs)
   \<and> jsonRestoreObjectSync P (JArr xs) = JArr (map (jsonRestoreObjectSync P) xs)"
proof (intro conjI impI)
  show "jsonRestoreObjectAsync P v = jsonRestoreObjectSync (P\<lparr>Date_parse := (\<lambda>s. None)\<rparr>) v"
    by (rule async_is_sync_without_dates)
  show "jsonRestoreObjectAsync P v = jsonRestoreObjectSync P v" if "date_free P v"
    using that by (rule async_eq_sync_date_free)
  show "jsonRestoreObjectAsync P (JArr xs) = JArr (map (jsonRestoreObjectAsync P) xs)"
    by (simp add: restore_elems_async_map)
  show "jsonRestoreObjectSync P (JArr xs) = JArr (map (jsonRestoreObjectSync P) xs)"
    by (simp add: restore_elems_map)
qed

text \<open>
  The theorem of C9 at an object without date strings, on the reference host.
\<close>

theorem async_decode_vs_sync_witness:
  "date_free reference_host
     (JObj [(''when'', JStr ''2024-01-01''), (''xs'', JArr [JNum 1, JStr ''a''])])
   \<and> jsonRestoreObjectAsync reference_host
       (JObj [(''when'', JStr ''2024-01-01''), (''xs'', JArr [JNum 1, JStr ''a''])])
     = jsonRestoreObjectSync reference_host
       (JObj [(''when'', JStr ''2024-01-01''), (''xs'', JArr [JNum 1, JStr ''a''])])"
proof -
  have h: "date_free reference_host
     (JObj [(''when'', JStr ''2024-01-01''), (''xs'', JArr [JNum 1, JStr ''a''])])"
    by code_simp
  show ?thesis
    using h async_decode_vs_sync [of reference_host
        "JObj [(''when'', JStr ''2024-01-01''), (''xs'', JArr [JNum 1, JStr ''a''])]"]
    by blast
qed

text \<open>
  Claim C9 as stated fails on a string in ISO format: the immediate decoder returns a
  date, the deferred decoder returns the string.
\<close>

theorem async_decode_date_counterexample:
  "jsonRestoreObjectSync reference_host (JStr ''2024-01-01T00:00:00.000Z'')
     = JDate (Some 1704067200000)
   \<and> jsonRestoreObjectAsync reference_host (JStr ''2024-01-01T00:00:00.000Z'')
     = JStr ''2024-01-01T00:00:00.000Z''"
  by code_simp

section \<open>Properties of the event dispatcher\<close>

lemma count_list_filter: "count_list (filter Q xs) x = (if Q x then count_list xs x else 0)"
  by (induction xs) auto

text \<open>
  \<^verbatim>\<open>on\<close> appends to the list of the event and creates the list when there is none; on a
  name that \<^verbatim>\<open>Object.prototype\<close> defines, and for which no list exists, \<^verbatim>\<open>on\<close> and \<^verbatim>\<open>off\<close>
  throw. \<^verbatim>\<open>off\<close> returns at once on any other name without a list.
\<close>

lemma on_initial:
  "event \<notin> set object_prototype_names \<Longrightarrow>
   addEventListener event l initial_conn = Inr (listening event [l])"
  by (simp add: addEventListener_def listening_def initial_conn_def)

lemma on_listening:
  "addEventListener event l (listening event ls) = Inr (listening event (ls @ [l]))"
  by (simp add: addEventListener_def listening_def)

lemma on_off_inherited:
  "eventListeners s event = None \<Longrightarrow> event \<in> set object_prototype_names \<Longrightarrow>
   addEventListener event l s = Inl TypeError \<and> removeEventListener event l s = Inl TypeError"
  by (simp add: addEventListener_def removeEventListener_def)

lemma off_unknown:
  "eventListeners s event = None \<Longrightarrow> event \<notin> set object_prototype_names \<Longrightarrow>
   removeEventListener event l s = Inr s"
  by (simp add: removeEventListener_def)

text \<open>
  Claim C6, as amended. When the event has a listener list, \<^verbatim>\<open>off(event, fn)\<close> returns
  and has filtered that list: every occurrence of \<open>fn\<close> (compared by identity) is
  removed, every other listener is kept with its multiplicity and in the same order, and
  the lists of the other events are as they were.
\<close>

theorem off_removes_every_occurrence:
  "eventListeners s event = Some ls \<Longrightarrow>
   (\<exists>s' ls'. removeEventListener event l s = Inr s'
      \<and> eventListeners s' event = Some ls'
      \<and> l \<notin> set ls' \<and> subseq ls' ls
      \<and> (\<forall>x. x \<noteq> l \<longrightarrow> count_list ls' x = count_list ls x)
      \<and> (\<forall>other. other \<noteq> event \<longrightarrow> eventListeners s' other = eventListeners s other))"
  by (simp add: removeEventListener_def count_list_filter)

text \<open>
  The theorem of C6 at the list of the listeners 1, 2, 1 for \<^verbatim>\<open>message\<close>.
\<close>

theorem off_removes_every_occurrence_witness:
  "eventListeners (listening ''message'' [1, 2, 1]) ''message'' = Some [1, 2, 1]
   \<and> (\<exists>s' ls'. removeEventListener ''message'' 1 (listening ''message'' [1, 2, 1]) = Inr s'
        \<and> eventListeners s' ''message'' = Some ls'
        \<and> 1 \<notin> set ls' \<and> subseq ls' [1, 2, 1]
        \<and> (\<forall>x. x \<noteq> 1 \<longrightarrow> count_list ls' x = count_list [1, 2, 1] x)
        \<and> (\<forall>other. other \<noteq> ''message'' \<longrightarrow>
              eventListeners s' other = eventListeners (listening ''message'' [1, 2, 1]) other))"
proof -
  have h: "eventListeners (listening ''message'' [1, 2, 1]) ''message'' = Some [1, 2, 1]"
    by (simp add: listening_def)
  show ?thesis
    using h off_removes_every_occurrence [OF h, of 1]
    by blast
qed

text \<open>
  Claim C6 as stated fails when a listener is registered twice: of the listeners 1, 2, 1,
  \<^verbatim>\<open>off\<close> of listener 1 leaves only listener 2, where removing the first match would
  leave 2, 1.
\<close>

theorem off_first_match_counterexample:
  "removeEventListener ''message'' 1 (listening ''message'' [1, 2, 1])
     = Inr (listening ''message'' [2])
   \<and> remove1 (1::nat) [1, 2, 1] = [2, 1]"
  by (simp add: removeEventListener_def listening_def)


lemma forEach_append:
  "forEach f (xs @ ys) s = (case forEach f xs s of Inl t \<Rightarrow> Inl t | Inr s' \<Rightarrow> forEach f ys s')"
  by (induction xs arbitrary: s) (auto split: sum.splits)

lemma invoked_append:
  "forEach f xs s = Inr s1 \<Longrightarrow> invoked f (xs @ ys) s = xs @ invoked f ys s1"
  by (induction xs arbitrary: s) (auto split: sum.splits)

text \<open>
  Claim C7, as amended. If a listener throws during dispatch, the exception leaves
  \<^verbatim>\<open>dispatchEvent\<close> with the state as that listener left it: the listeners registered
  before it have been called, the listeners registered after it are not called.
\<close>

theorem dispatch_stops_at_throw:
  "eventListeners s event = Some (before @ l # later) \<Longrightarrow>
   forEach (\<lambda>l. run l d) before s = Inr s1 \<Longrightarrow>
   run l d s1 = Inl (e, s2) \<Longrightarrow>
   dispatchEvent run event d s = Inl (e, s2) \<and> dispatched run event d s = before @ [l]"
  by (simp add: dispatchEvent_def dispatched_def forEach_append invoked_append)

text \<open>
  The theorem of C7 at four listeners for \<^verbatim>\<open>close\<close>, of which listener 2 throws.
\<close>

theorem dispatch_stops_at_throw_witness:
  "dispatchEvent faulty ''close'' JNull (listening ''close'' [5, 2, 7, 8])
   = Inl (JStr ''boom'', listening ''close'' [5, 2, 7, 8])
   \<and> dispatched faulty ''close'' JNull (listening ''close'' [5, 2, 7, 8]) = [5] @ [2]"
proof -
  define s where "s = listening ''close'' [5, 2, 7, 8]"
  have h1: "eventListeners s ''close'' = Some ([5] @ 2 # [7, 8])"
    by (simp add: s_def listening_def)
  have h2: "forEach (\<lambda>l. faulty l JNull) [5] s = Inr s"
    by (simp add: faulty_def)
  have h3: "faulty 2 JNull s = Inl (JStr ''boom'', s)"
    by (simp add: faulty_def)
  show ?thesis
    using h1 h2 h3
      dispatch_stops_at_throw [where s = s and event = "''close''" and before = "[5]" and l = 2
        and later = "[7, 8]" and run = faulty and d = JNull and ?s1.0 = s
        and e = "JStr ''boom''" and ?s2.0 = s]
    unfolding s_def by simp
qed

text \<open>
  Claim C7 as stated fails: with the listeners 1, 2, 3 for \<^verbatim>\<open>open\<close>, of which listener 2
  throws, dispatch ends with the exception and listener 3 is not called.
\<close>

theorem dispatch_isolation_counterexample:
  "isl (dispatchEvent faulty ''open'' JNull (listening ''open'' [1, 2, 3]))
   \<and> dispatched faulty ''open'' JNull (listening ''open'' [1, 2, 3]) = [1, 2]"
  by (simp add: dispatchEvent_def dispatched_def listening_def faulty_def)

section \<open>Properties of the connection manager\<close>

lemma forEach_passive:
  "(\<And>x s. g (after (f x s)) = g s) \<Longrightarrow> g (after (forEach f xs s)) = g s"
proof (induction xs arbitrary: s)
  case Nil
  then show ?case by simp
next
  case (Cons x xs)
  show ?case
  proof (cases "f x s")
    case (Inl t)
    with Cons.prems [of x s] show ?thesis by simp
  next
    case (Inr s')
    with Cons.prems [of x s] Cons.IH [OF Cons.prems, of s'] show ?thesis by simp
  qed
qed

lemma dispatch_passive:
  "passive_listeners run \<Longrightarrow> link (after (dispatchEvent run event d s)) = link s"
  unfolding dispatchEvent_def
  by (cases "eventListeners s event") (auto simp: passive_listeners_def intro: forEach_passive)
lemma budget_link: "link s' = link s \<Longrightarrow> budget s' = budget s"
  by (simp add: link_def budget_def live_def)

lemma filter_update_length:
  "k < length xs \<Longrightarrow>
   length (filter Q (xs[k := y])) + (if Q (xs ! k) then 1 else 0)
     = length (filter Q xs) + (if Q y then 1 else 0)"
proof (induction xs arbitrary: k)
  case Nil
  then show ?case by simp
next
  case (Cons x xs)
  show ?case
  proof (cases k)
    case 0
    then show ?thesis by simp
  next
    case (Suc j)
    with Cons.prems have "j < length xs" by simp
    from Cons.IH [OF this] Suc show ?thesis by simp
  qed
qed

lemma budget_set_ready_live:
  assumes "k < length (sockets s)" "readyState (sockets s ! k) \<noteq> CLOSED" "r \<noteq> CLOSED"
  shows "budget (set_ready k r s) = budget s"
  using assms filter_update_length [of k "sockets s" "\<lambda>w. readyState w \<noteq> CLOSED"
      "(sockets s ! k)\<lparr>readyState := r\<rparr>"]
  by (simp add: budget_def live_def set_ready_def)

lemma budget_set_ready_closed:
  assumes "k < length (sockets s)" "readyState (sockets s ! k) \<noteq> CLOSED"
  shows "Suc (budget (set_ready k CLOSED s)) = budget s"
  using assms filter_update_length [of k "sockets s" "\<lambda>w. readyState w \<noteq> CLOSED"
      "(sockets s ! k)\<lparr>readyState := CLOSED\<rparr>"]
  by (simp add: budget_def live_def set_ready_def)

lemma budget_setTimeout: "budget (setTimeout_connect T s) = Suc (budget s)"
  by (simp add: budget_def live_def setTimeout_connect_def)

lemma budget_connect: "budget (connect T s) \<le> Suc (budget s)"
proof (cases "url T = []")
  case True
  then show ?thesis by (simp add: budget_def live_def connect_def)
next
  case False
  then show ?thesis
    by (cases "protocols (config T)") (simp_all add: budget_def live_def connect_def Let_def)
qed

lemma clearTimeout_fired:
  assumes "h \<in> fst ` set ts"
  shows "length (clearTimeout (Some h) ts) < length ts"
proof -
  from assms obtain b where "(h, b) \<in> set ts" by auto
  then show ?thesis
    unfolding clearTimeout_def by (rule length_filter_less) simp
qed

lemma budget_fired:
  "h \<in> fst ` set (timers s) \<Longrightarrow> Suc (budget (s\<lparr>timers := clearTimeout (Some h) (timers s)\<rparr>)) \<le> budget s"
  using clearTimeout_fired [of h "timers s"] by (simp add: budget_def live_def)

lemma budget_onclose:
  assumes "passive_listeners run"
  shows "budget (after (onclose run T e s)) \<le> Suc (budget s)"
proof -
  have l: "link (after (dispatchEvent run ''close'' e s)) = link s"
    by (rule dispatch_passive [OF assms])
  show ?thesis
  proof (cases "dispatchEvent run ''close'' e s")
    case (Inl t)
    then have "after (onclose run T e s) = after (dispatchEvent run ''close'' e s)"
      by (simp only: onclose_def sum.case)
    with l have "link (after (onclose run T e s)) = link s" by simp
    then have "budget (after (onclose run T e s)) = budget s" by (rule budget_link)
    then show ?thesis by simp
  next
    case (Inr s')
    with l have "link s' = link s" by (simp only: after.simps)
    then have b: "budget s' = budget s" by (rule budget_link)
    have "onclose run T e s = Inr (if shouldReconnect s' then setTimeout_connect T s' else s')"
      using Inr by (simp only: onclose_def sum.case)
    then show ?thesis using b by (simp add: budget_setTimeout)
  qed
qed

lemma socket_close_live:
  "socket_close code reason w0 = Inr w \<Longrightarrow>
   (readyState w \<noteq> CLOSED) = (readyState w0 \<noteq> CLOSED)"
  by (cases "readyState w0") (auto simp: socket_close_def split: if_splits)

lemma budget_socket_close:
  assumes "k < length (sockets s)" "socket_close code reason (sockets s ! k) = Inr w"
  shows "budget (s\<lparr>sockets := (sockets s)[k := w]\<rparr>) = budget s"
  using filter_update_length [OF assms(1), of "\<lambda>w. readyState w \<noteq> CLOSED" w]
    socket_close_live [OF assms(2)]
  by (simp add: budget_def live_def)

lemma budget_close: "budget (after (close code reason s)) \<le> budget s"
proof -
  define s1 where "s1 = s\<lparr>shouldReconnect := False, timers := clearTimeout (reconnectTimer s) (timers s)\<rparr>"
  have b1: "budget s1 \<le> budget s"
    by (simp add: s1_def budget_def live_def clearTimeout_def)
  have "budget (after (close code reason s)) \<le> budget s1"
  proof (cases "ws s1")
    case None
    then show ?thesis by (simp add: close_def s1_def Let_def)
  next
    case (Some k)
    show ?thesis
    proof (cases "k < length (sockets s1)")
      case False
      with Some show ?thesis by (simp add: close_def s1_def Let_def)
    next
      case True
      show ?thesis
      proof (cases "socket_close code reason (sockets s1 ! k)")
        case (Inl e)
        with Some True show ?thesis by (simp add: close_def s1_def Let_def)
      next
        case (Inr w)
        from budget_socket_close [OF True Inr] Some True Inr show ?thesis
          by (simp add: close_def s1_def Let_def)
      qed
    qed
  qed
  with b1 show ?thesis by simp
qed
lemma step_budget:
  assumes p: "passive_listeners run" and nc: "ev \<noteq> CallConnect"
    and st: "step run T ev s = Some s'" and b: "budget s \<le> 1"
  shows "budget s' \<le> 1"
proof (cases ev)
  case (SocketOpened k e)
  with st have k: "k < length (sockets s)" "readyState (sockets s ! k) = CONNECTING"
    and s': "s' = after (dispatchEvent run ''open'' e (set_ready k OPEN s))"
    by (auto split: if_splits)
  have "budget s' = budget (set_ready k OPEN s)"
    unfolding s' by (rule budget_link) (rule dispatch_passive [OF p])
  also have "\<dots> = budget s" using k by (simp add: budget_set_ready_live)
  finally show ?thesis using b by simp
next
  case (SocketMessage k e)
  with st have s': "s' = after (dispatchEvent run ''message'' e s)" by (auto split: if_splits)
  have "budget s' = budget s" unfolding s' by (rule budget_link) (rule dispatch_passive [OF p])
  then show ?thesis using b by simp
next
  case (SocketError k e)
  with st have s': "s' = after (dispatchEvent run ''error'' e s)" by (auto split: if_splits)
  have "budget s' = budget s" unfolding s' by (rule budget_link) (rule dispatch_passive [OF p])
  then show ?thesis using b by simp
next
  case (SocketClosed k e)
  with st have k: "k < length (sockets s)" "readyState (sockets s ! k) \<noteq> CLOSED"
    and s': "s' = after (onclose run T e (set_ready k CLOSED s))"
    by (auto split: if_splits)
  have "budget s' \<le> Suc (budget (set_ready k CLOSED s))"
    unfolding s' by (rule budget_onclose [OF p])
  also have "\<dots> = budget s" using k by (rule budget_set_ready_closed)
  finally show ?thesis using b by simp
next
  case (TimerFired h)
  with st have h: "h \<in> fst ` set (timers s)"
    and s': "s' = connect T (s\<lparr>timers := clearTimeout (Some h) (timers s)\<rparr>)"
    by (auto split: if_splits)
  have "budget s' \<le> Suc (budget (s\<lparr>timers := clearTimeout (Some h) (timers s)\<rparr>))"
    unfolding s' by (rule budget_connect)
  also have "\<dots> \<le> budget s" using h by (rule budget_fired)
  finally show ?thesis using b by simp
next
  case CallConnect
  with nc show ?thesis by simp
next
  case (CallClose code reason)
  with st have "s' = after (close code reason s)" by simp
  with budget_close [of code reason s] b show ?thesis by simp
qed

lemma steps_budget:
  "passive_listeners run \<Longrightarrow> CallConnect \<notin> set evs \<Longrightarrow> steps run T evs s = Some s' \<Longrightarrow>
   budget s \<le> 1 \<Longrightarrow> budget s' \<le> 1"
proof (induction evs arbitrary: s)
  case Nil
  then show ?case by simp
next
  case (Cons ev evs)
  from Cons.prems obtain s1 where s1: "step run T ev s = Some s1" and rest: "steps run T evs s1 = Some s'"
    by (auto split: option.splits)
  from Cons.prems have "ev \<noteq> CallConnect" by auto
  from step_budget [OF Cons.prems(1) this s1 Cons.prems(4)] have "budget s1 \<le> 1" .
  with Cons.IH [OF Cons.prems(1) _ rest] Cons.prems(2) show ?case by simp
qed

lemma passive_quiet: "passive_listeners quiet"
  by (simp add: passive_listeners_def quiet_def)

text \<open>
  Claim C4, as amended. When the listeners of \<^verbatim>\<open>close\<close> return and \<^verbatim>\<open>shouldReconnect\<close> is
  set, the close handler schedules exactly one timeout, with the configured interval,
  and stores its handle. The handler has no guard against a timeout that is already
  scheduled. As long as \<^verbatim>\<open>connect\<close> is called only at load and by that timeout, and
  the listeners leave the connection alone, the scheduled timeouts and the sockets that
  have not closed are at most one altogether, so no second close can happen while a
  timeout is scheduled and at most one timeout is scheduled at any time.
\<close>

theorem reconnect_single_timer:
  "(dispatchEvent run ''close'' e s = Inr s1 \<longrightarrow> shouldReconnect s1 \<longrightarrow>
      (\<exists>s2. onclose run T e s = Inr s2
           \<and> timers s2 = timers s1 @ [(timer_count s1, reconnectInterval (config T))]
           \<and> reconnectTimer s2 = Some (timer_count s1)))
   \<and> (passive_listeners run \<longrightarrow> CallConnect \<notin> set evs \<longrightarrow> sockets s0 = [] \<longrightarrow> timers s0 = [] \<longrightarrow>
      steps run T evs (connect T s0) = Some s' \<longrightarrow> length (timers s') + live s' \<le> 1)"
proof (intro conjI impI)
  assume "dispatchEvent run ''close'' e s = Inr s1" "shouldReconnect s1"
  then show "\<exists>s2. onclose run T e s = Inr s2
           \<and> timers s2 = timers s1 @ [(timer_count s1, reconnectInterval (config T))]
           \<and> reconnectTimer s2 = Some (timer_count s1)"
    by (simp add: onclose_def setTimeout_connect_def)
next
  assume p: "passive_listeners run" and nc: "CallConnect \<notin> set evs"
    and e: "sockets s0 = []" "timers s0 = []" and st: "steps run T evs (connect T s0) = Some s'"
  from e have "budget s0 = 0" by (simp add: budget_def live_def)
  with budget_connect [of T s0] have "budget (connect T s0) \<le> 1" by simp
  from steps_budget [OF p nc st this] show "length (timers s') + live s' \<le> 1"
    by (simp add: budget_def)
qed
text \<open>
  The theorem of C4 on a connection that drops, reconnects after the timeout, opens and
  drops again.
\<close>

theorem reconnect_single_timer_witness:
  "passive_listeners quiet
   \<and> CallConnect \<notin> set [SocketClosed 0 JNull, TimerFired 0, SocketOpened 1 JNull, SocketClosed 1 JNull]
   \<and> sockets initial_conn = [] \<and> timers initial_conn = []
   \<and> (\<exists>s'. steps quiet local_template
              [SocketClosed 0 JNull, TimerFired 0, SocketOpened 1 JNull, SocketClosed 1 JNull]
              (connect local_template initial_conn) = Some s'
           \<and> length (timers s') + live s' \<le> 1)
   \<and> dispatchEvent quiet ''close'' JNull (connect local_template initial_conn)
       = Inr (connect local_template initial_conn)
   \<and> shouldReconnect (connect local_template initial_conn)
   \<and> (\<exists>s2. onclose quiet local_template JNull (connect local_template initial_conn) = Inr s2
           \<and> timers s2 = [(0, 3000)] \<and> reconnectTimer s2 = Some 0)"
proof -
  have h1: "passive_listeners quiet" by (rule passive_quiet)
  have h2: "CallConnect \<notin> set [SocketClosed 0 JNull, TimerFired 0, SocketOpened 1 JNull,
      SocketClosed 1 JNull :: jsval event]" by simp
  have h3: "sockets initial_conn = []" "timers initial_conn = []"
    by (simp_all add: initial_conn_def)
  obtain s' where h4: "steps quiet local_template
      [SocketClosed 0 JNull, TimerFired 0, SocketOpened 1 JNull, SocketClosed 1 JNull]
      (connect local_template initial_conn) = Some s'"
    by (simp add: connect_def local_template_def initial_conn_def config_def Let_def set_ready_def
        onclose_def dispatchEvent_def setTimeout_connect_def quiet_def clearTimeout_def)
  have h5: "dispatchEvent quiet ''close'' JNull (connect local_template initial_conn)
       = Inr (connect local_template initial_conn)"
    by (simp add: dispatchEvent_def connect_def local_template_def initial_conn_def Let_def)
  have h6: "shouldReconnect (connect local_template initial_conn)"
    by (simp add: connect_def local_template_def initial_conn_def config_def Let_def)
  have v: "timers (connect local_template initial_conn) = []"
    "timer_count (connect local_template initial_conn) = 0"
    "reconnectInterval (config local_template) = 3000"
    by (simp_all add: connect_def local_template_def initial_conn_def config_def Let_def)
  from reconnect_single_timer [of quiet JNull "connect local_template initial_conn"
      "connect local_template initial_conn" local_template
      "[SocketClosed 0 JNull, TimerFired 0, SocketOpened 1 JNull, SocketClosed 1 JNull]"
      initial_conn s']
  show ?thesis using h1 h2 h3 h4 h5 h6 v by simp
qed

text \<open>
  Claim C4 as stated fails when the application calls \<^verbatim>\<open>connect\<close> while the first socket
  is still connecting: both sockets keep their close handler, and when both have closed
  two reconnect timeouts are scheduled at the same time.
\<close>

theorem reconnect_two_timers_counterexample:
  "map_option (length \<circ> timers)
     (steps quiet local_template [CallConnect, SocketClosed 0 JNull, SocketClosed 1 JNull]
        (connect local_template initial_conn)) = Some 2"
  by (simp add: connect_def local_template_def initial_conn_def config_def Let_def set_ready_def
      onclose_def dispatchEvent_def setTimeout_connect_def quiet_def)

section \<open>Properties of the invocation broker\<close>

subsection \<open>JSON-safe values\<close>

lemma safe_list_iff: "safe_list xs \<longleftrightarrow> (\<forall>x\<in>set xs. is_safe x)"
  by (induction xs) auto

lemma safe_values_iff: "safe_values kvs \<longleftrightarrow> (\<forall>kv\<in>set kvs. is_safe (snd kv))"
  by (induction kvs) auto

lemma safe_values_update:
  "is_safe v \<Longrightarrow> safe_values al \<Longrightarrow> safe_values (AList.update k v al)"
  by (induction al) auto

lemma safe_entries_safe:
  "safe_entries P kvs acc = Inr r \<Longrightarrow> distinct (map fst acc) \<Longrightarrow> safe_values acc \<Longrightarrow>
   (\<And>v e. v \<in> snd ` set kvs \<Longrightarrow> jsonMakeObjectSafe P v = Inr e \<Longrightarrow> is_safe e) \<Longrightarrow>
   distinct (map fst r) \<and> safe_values r"
proof (induction kvs arbitrary: acc)
  case Nil
  then show ?case by simp
next
  case (Cons kv kvs)
  obtain k v where kv: "kv = (k, v)" by (cases kv)
  from Cons.prems(1) obtain y where y: "jsonMakeObjectSafe P v = Inr y"
    and rest: "safe_entries P kvs (AList.update k y acc) = Inr r"
    by (auto simp: kv split: sum.splits)
  from Cons.prems(4) [of v y] y have "is_safe y" by (simp add: kv)
  with Cons.prems(3) have s: "safe_values (AList.update k y acc)" by (simp add: safe_values_update)
  from Cons.prems(2) have d: "distinct (map fst (AList.update k y acc))"
    by (rule distinct_update)
  show ?case
  proof (rule Cons.IH [OF rest d s])
    fix v' e assume "v' \<in> snd ` set kvs" "jsonMakeObjectSafe P v' = Inr e"
    then show "is_safe e" using Cons.prems(4) [of v' e] by auto
  qed
qed

lemma enc_output_safe: "jsonMakeObjectSafe P v = Inr e \<Longrightarrow> is_safe e"
proof (induction v arbitrary: e)
  case (JArr xs)
  then obtain es where e: "e = JArr es" and es: "safe_elems P xs = Inr es"
    by (auto split: sum.splits)
  from es have "list_all2 (\<lambda>x y. jsonMakeObjectSafe P x = Inr y) xs es"
    by (simp add: safe_elems_Inr)
  then have "\<forall>y\<in>set es. is_safe y"
    using JArr.IH by (induction xs es rule: list_all2_induct) auto
  then show ?case by (simp add: e safe_list_iff)
next
  case (JSet xs)
  then obtain es where e: "e = JArr es" and es: "safe_elems P xs = Inr es"
    by (auto split: sum.splits)
  from es have "list_all2 (\<lambda>x y. jsonMakeObjectSafe P x = Inr y) xs es"
    by (simp add: safe_elems_Inr)
  then have "\<forall>y\<in>set es. is_safe y"
    using JSet.IH by (induction xs es rule: list_all2_induct) auto
  then show ?case by (simp add: e safe_list_iff)
next
  case (JObj kvs)
  then obtain r where e: "e = JObj r" and r: "safe_entries P kvs [] = Inr r"
    by (auto split: sum.splits)
  have "distinct (map fst r) \<and> safe_values r"
  proof (rule safe_entries_safe [OF r])
    fix v e assume "v \<in> snd ` set kvs" "jsonMakeObjectSafe P v = Inr e"
    then show "is_safe e" using JObj.IH by (auto simp: snds.simps)
  qed simp_all
  then show ?case by (simp add: e)
qed (auto split: sum.splits option.splits)

lemma safe_elems_cm_fixed:
  "(\<And>x. x \<in> set xs \<Longrightarrow> jsonMakeObjectSafe_cm P x = Inr x) \<Longrightarrow> safe_elems_cm P xs = Inr xs"
  by (induction xs) auto

lemma safe_entries_cm_fixed:
  "(\<And>v. v \<in> snd ` set kvs \<Longrightarrow> jsonMakeObjectSafe_cm P v = Inr v) \<Longrightarrow>
   distinct (map fst acc @ map fst kvs) \<Longrightarrow> safe_entries_cm P kvs acc = Inr (acc @ kvs)"
proof (induction kvs arbitrary: acc)
  case Nil
  then show ?case by simp
next
  case (Cons kv kvs)
  obtain k v where kv: "kv = (k, v)" by (cases kv)
  from Cons.prems(2) have fresh: "k \<notin> fst ` set acc" by (auto simp: kv)
  have d: "distinct (map fst (acc @ [(k, v)]) @ map fst kvs)"
    using Cons.prems(2) by (auto simp: kv)
  have v: "jsonMakeObjectSafe_cm P v = Inr v" using Cons.prems(1) [of v] by (simp add: kv)
  have "safe_entries_cm P kvs (acc @ [(k, v)]) = Inr ((acc @ [(k, v)]) @ kvs)"
  proof (rule Cons.IH [OF _ d])
    fix v' assume "v' \<in> snd ` set kvs"
    then show "jsonMakeObjectSafe_cm P v' = Inr v'" using Cons.prems(1) [of v'] by auto
  qed
  then show ?case by (simp add: kv v update_fresh [OF fresh])
qed

lemma safe_fixed_cm: "is_safe e \<Longrightarrow> jsonMakeObjectSafe_cm P e = Inr e"
proof (induction e)
  case (JArr xs)
  then have "safe_elems_cm P xs = Inr xs"
    by (intro safe_elems_cm_fixed) (auto simp: safe_list_iff)
  then show ?case by simp
next
  case (JObj kvs)
  then have "safe_entries_cm P kvs [] = Inr ([] @ kvs)"
    by (intro safe_entries_cm_fixed) (auto simp: safe_values_iff snds.simps)
  then show ?case by simp
qed auto

subsection \<open>Property names\<close>

lemma digit_char_code: "0 \<le> d \<Longrightarrow> d < 10 \<Longrightarrow> int (of_char (digit_char d)) = 48 + d"
proof -
  assume "0 \<le> d" "d < 10"
  then have "d = 0 \<or> d = 1 \<or> d = 2 \<or> d = 3 \<or> d = 4 \<or> d = 5 \<or> d = 6 \<or> d = 7 \<or> d = 8 \<or> d = 9"
    by arith
  then show ?thesis by (auto simp: digit_char_def)
qed

lemma digits_val_snoc: "digits_val (cs @ [c]) = 10 * digits_val cs + (int (of_char c) - 48)"
  by (simp add: digits_val_def)

lemma digits_val_dec_pos: "0 \<le> n \<Longrightarrow> digits_val (dec_pos n) = n"
proof (induction n rule: dec_pos.induct)
  case (1 n)
  show ?case
  proof (cases "n < 10")
    case True
    with "1.prems" show ?thesis
      by (simp add: dec_pos.simps [of n] digits_val_def digit_char_code)
  next
    case False
    with "1.prems" have ih: "digits_val (dec_pos (n div 10)) = n div 10"
      by (intro "1.IH") auto
    have m: "0 \<le> n mod 10" "n mod 10 < 10" by auto
    from False show ?thesis
      by (simp add: dec_pos.simps [of n] digits_val_snoc ih digit_char_code [OF m])
  qed
qed

lemma prop_name_inj: "prop_name a = prop_name b \<Longrightarrow> a = b"
proof -
  assume "prop_name a = prop_name b"
  then have "dec_pos (uint a) = dec_pos (uint b)" by (simp add: prop_name_def)
  then have "digits_val (dec_pos (uint a)) = digits_val (dec_pos (uint b))" by simp
  then have "uint a = uint b" by (simp add: digits_val_dec_pos)
  then show ?thesis by (rule word_uint_eqI)
qed

subsection \<open>The example bridge\<close>

lemma open_bridge_connected: "is_connected open_bridge"
  by (simp add: open_bridge_def set_ready_def connect_def local_template_def fresh_bridge_def
      is_connected_def current_state_def config_def Let_def)

lemma fresh_bridge_not_connected: "\<not> is_connected fresh_bridge"
  by (simp add: fresh_bridge_def is_connected_def current_state_def)

lemma open_bridge_fields:
  "window open_bridge = Map.empty" "promises open_bridge = []" "wire open_bridge = []"
  "drawn open_bridge = 0" "entropy open_bridge = sample_entropy" "ws open_bridge = Some 0"
  by (simp_all add: open_bridge_def set_ready_def connect_def local_template_def fresh_bridge_def
      config_def Let_def)

lemma sample_ids: "sample_entropy 0 = 1000" "sample_entropy (Suc 0) = 1001"
  by (simp_all add: sample_entropy_def)

lemma echo_args_safe: "jsonMakeObjectSafe P (nullish_default echo_args) = Inr echo_args"
  by (simp add: echo_args_def)

lemma open_bridge_all_once: "all_once open_bridge"
  by (simp add: all_once_def open_bridge_fields)

subsection \<open>Outbound: invoke\<close>

lemma is_connected_bridge_fields:
  "is_connected (s\<lparr>promises := a\<rparr>) = is_connected s"
  "is_connected (s\<lparr>drawn := b\<rparr>) = is_connected s"
  "is_connected (s\<lparr>window := c\<rparr>) = is_connected s"
  by (simp_all add: is_connected_def current_state_def split: option.split)

text \<open>
  Claim C2. When the connection manager does not report the open state, \<^verbatim>\<open>invoke\<close> returns
  a promise that is rejected at once with the error "Socket is not connected or
  unavailable!": no frame is handed to the socket, no identifier is drawn and no
  resolver is registered.
\<close>

theorem invoke_unavailable:
  "\<not> is_connected s \<Longrightarrow>
   (\<exists>s'. invoke P cmd args s = (length (promises s), s')
        \<and> promises s' = promises s @ [Rejected (Failure ''Socket is not connected or unavailable!'')]
        \<and> wire s' = wire s \<and> drawn s' = drawn s \<and> window s' = window s
        \<and> console s' = console s)"
proof -
  assume nc: "\<not> is_connected s"
  show ?thesis
    using nc by (simp add: invoke_def Let_def is_connected_bridge_fields settle_def)
qed

text \<open>The theorem of C2 on the bridge before any socket exists.\<close>

theorem invoke_unavailable_witness:
  "\<not> is_connected fresh_bridge
   \<and> (\<exists>s'. invoke reference_host (JStr ''echo'') echo_args fresh_bridge = (0, s')
          \<and> promises s' = [Rejected (Failure ''Socket is not connected or unavailable!'')]
          \<and> wire s' = [] \<and> drawn s' = 0)"
  using fresh_bridge_not_connected
    invoke_unavailable [of fresh_bridge reference_host "JStr ''echo''" echo_args]
  by (auto simp: fresh_bridge_def)

lemma send_connected:
  assumes "is_connected s"
  shows "send P data s =
     (case jsonMakeObjectSafe_cm P data of
        Inl e \<Rightarrow> Inl (e, s)
      | Inr v \<Rightarrow> Inr (s\<lparr>wire := wire s @ [(the (ws s), v)]\<rparr>))"
proof -
  from assms obtain k where "ws s = Some k" and "current_state s = Some OPEN"
    by (cases "ws s") (auto simp: is_connected_def current_state_def)
  then show ?thesis by (simp add: send_def split: sum.split)
qed

lemma invoke_connected:
  assumes "is_connected s" and "jsonMakeObjectSafe P (nullish_default args) = Inr py"
  shows "invoke P (JStr c) args s =
     (length (promises s),
      s\<lparr>promises := promises s @ [Pending],
        drawn := Suc (Suc (drawn s)),
        window := (window s)
          (prop_name (entropy s (drawn s)) \<mapsto>
             \<lparr>callback = Some (Resolve (length (promises s))), once = True\<rparr>,
           prop_name (entropy s (Suc (drawn s))) \<mapsto>
             \<lparr>callback = Some (Reject (length (promises s))), once = True\<rparr>),
        wire := wire s @
          [(the (ws s),
            JObj [(''cmd'', JStr c),
                  (''result_id'', JNum (uint (entropy s (drawn s)))),
                  (''error_id'', JNum (uint (entropy s (Suc (drawn s))))),
                  (''payload'', py)])]\<rparr>)"
proof -
  let ?msg = "JObj [(''cmd'', JStr c),
                  (''result_id'', JNum (uint (entropy s (drawn s)))),
                  (''error_id'', JNum (uint (entropy s (Suc (drawn s))))),
                  (''payload'', py)]"
  have "is_safe py" using assms(2) by (rule enc_output_safe)
  then have "is_safe ?msg" by simp
  then have m: "jsonMakeObjectSafe_cm P ?msg = Inr ?msg" by (rule safe_fixed_cm)
  show ?thesis
    unfolding invoke_def Let_def transformCallback_def uid_def
    using m assms
    by (simp add: is_connected_bridge_fields send_connected del: jsonMakeObjectSafe_cm.simps)
qed

text \<open>
  Claim C8, as amended. The message that \<^verbatim>\<open>invoke\<close> hands to the socket is an object with
  exactly the four fields \<^verbatim>\<open>cmd\<close>, \<^verbatim>\<open>result_id\<close>, \<^verbatim>\<open>error_id\<close> and \<^verbatim>\<open>payload\<close>, in this
  order: \<^verbatim>\<open>cmd\<close> holds the command string, the two identifiers are the two numbers drawn,
  and \<^verbatim>\<open>payload\<close> holds the encoded arguments. There is no field \<^verbatim>\<open>command\<close>.
\<close>

theorem invoke_wire_message:
  "is_connected s \<Longrightarrow> ws s = Some k \<Longrightarrow>
   jsonMakeObjectSafe P (nullish_default args) = Inr py \<Longrightarrow>
   wire (snd (invoke P (JStr c) args s)) =
     wire s @ [(k, JObj [(''cmd'', JStr c),
                         (''result_id'', JNum (uint (entropy s (drawn s)))),
                         (''error_id'', JNum (uint (entropy s (Suc (drawn s))))),
                         (''payload'', py)])]"
  by (simp add: invoke_connected)

text \<open>The theorem of C8 for \<^verbatim>\<open>invoke("echo", {value: 42})\<close> on an open connection.\<close>

theorem invoke_wire_message_witness:
  "is_connected open_bridge \<and> ws open_bridge = Some 0
   \<and> jsonMakeObjectSafe reference_host (nullish_default echo_args) = Inr echo_args
   \<and> wire (snd (invoke reference_host (JStr ''echo'') echo_args open_bridge)) =
       [(0, JObj [(''cmd'', JStr ''echo''), (''result_id'', JNum 1000),
                  (''error_id'', JNum 1001), (''payload'', echo_args)])]"
  using open_bridge_connected echo_args_safe [of reference_host]
    invoke_wire_message [of open_bridge 0 reference_host echo_args echo_args "''echo''"]
  by (simp add: open_bridge_fields sample_ids)

text \<open>
  Claim C8 as stated fails: the message of \<^verbatim>\<open>invoke("echo")\<close> has no field \<^verbatim>\<open>command\<close>; the
  command string is in the field \<^verbatim>\<open>cmd\<close>.
\<close>

theorem invoke_command_field_counterexample:
  "wire (snd (invoke reference_host (JStr ''echo'') JNull open_bridge)) =
     [(0, JObj [(''cmd'', JStr ''echo''), (''result_id'', JNum 1000),
                (''error_id'', JNum 1001), (''payload'', JObj [])])]
   \<and> get_prop (JObj [(''cmd'', JStr ''echo''), (''result_id'', JNum 1000),
                      (''error_id'', JNum 1001), (''payload'', JObj [])]) ''command'' = JUndefined"
proof -
  have "jsonMakeObjectSafe reference_host (nullish_default JNull) = Inr (JObj [])" by simp
  from invoke_connected [OF open_bridge_connected this, of "''echo''"]
  show ?thesis by (simp add: open_bridge_fields sample_ids)
qed

subsection \<open>Inbound: the message listener\<close>

lemma settle_fields:
  "window (settle p out s) = window s"
  "console (settle p out s) = console s"
  "wire (settle p out s) = wire s"
  "drawn (settle p out s) = drawn s"
  by (simp_all add: settle_def)

lemma apply_callback_window: "window (apply_callback cb v s) = window s"
  by (cases cb) (simp_all add: settle_fields)

lemma not_async: "\<not> is_async_function cb"
  by (cases cb) simp_all

lemma run_wrapper_window:
  "window (run_wrapper P prop r arg s) =
     (if once r then (window s)(prop := None) else window s)"
  by (auto simp: run_wrapper_def Let_def apply_callback_window split: option.splits)

lemma call_property_returns:
  assumes "all_once s" and "call_property P G prop arg s = Inr s'"
  shows "window s' = (window s)(prop := None)"
proof (cases "window s prop")
  case None
  with assms(2) have "s' = s"
    by (auto simp: call_property_def split: option.splits foreign.splits)
  with None show ?thesis by (auto simp: fun_eq_iff)
next
  case (Some r)
  with assms(1) have "once r" by (auto simp: all_once_def)
  with Some assms(2) show ?thesis by (auto simp: call_property_def run_wrapper_window)
qed

lemma call_property_thrown: "call_property P G prop arg s = Inl (e, s') \<Longrightarrow> s' = s"
  by (auto simp: call_property_def split: option.splits foreign.splits)

lemma call_property_absent:
  "window s prop = None \<Longrightarrow> G prop = None \<or> G prop = Some Returns \<Longrightarrow>
   call_property P G prop arg s = Inr s"
  by (auto simp: call_property_def)

lemma removal_all_once:
  "all_once s \<Longrightarrow> window s' = (window s)(prop := None) \<Longrightarrow> all_once s'"
  by (auto simp: all_once_def split: if_splits)

text \<open>
  A block of the listener that ends without an exception leaves no resolver under its
  identifier, and registers none.
\<close>

lemma handle_id_returns:
  assumes "all_once s" and "handle_id P G i arg s = Inr s'"
  shows "all_once s'"
    and "truthy i \<Longrightarrow> \<not> coerce_throws i \<and> window s' (name_of P i) = None"
    and "window s q = None \<Longrightarrow> window s' q = None"
proof -
  have w: "\<not> truthy i \<and> s' = s
      \<or> truthy i \<and> \<not> coerce_throws i \<and> window s' = (window s)(name_of P i := None)"
  proof (cases "truthy i")
    case False
    with assms(2) show ?thesis by (simp add: handle_id_def)
  next
    case True
    with assms(2) have nc: "\<not> coerce_throws i"
      and c: "call_property P G (name_of P i) arg s = Inr s'"
      by (auto simp: handle_id_def name_of_def split: if_splits)
    from call_property_returns [OF assms(1) c] True nc show ?thesis by simp
  qed
  from w assms(1) show "all_once s'" by (auto intro: removal_all_once)
  from w show "\<not> coerce_throws i \<and> window s' (name_of P i) = None" if "truthy i"
    using that by auto
  from w show "window s' q = None" if "window s q = None" using that by auto
qed

lemma handle_ids_returns:
  assumes "all_once s" and "handle_ids P G m s = Inr s1"
  shows "\<forall>i\<in>set (ids_of m). \<not> coerce_throws i \<and> window s1 (name_of P i) = None"
proof -
  from assms(2) obtain s0
    where a: "handle_id P G (get_prop m ''result_id'') (get_prop m ''result'') s = Inr s0"
      and b: "handle_id P G (get_prop m ''error_id'') (get_prop m ''error'') s0 = Inr s1"
    by (auto simp: handle_ids_def split: sum.splits)
  note r = handle_id_returns [OF assms(1) a]
  note e = handle_id_returns [OF r(1) b]
  have "\<not> coerce_throws (get_prop m ''result_id'')
      \<and> window s1 (name_of P (get_prop m ''result_id'')) = None"
    if "truthy (get_prop m ''result_id'')"
    using that r(2) e(3) by blast
  moreover have "\<not> coerce_throws (get_prop m ''error_id'')
      \<and> window s1 (name_of P (get_prop m ''error_id'')) = None"
    if "truthy (get_prop m ''error_id'')"
    using that e(2) by blast
  ultimately show ?thesis by (auto simp: ids_of_def)
qed

lemma handle_id_spent:
  "\<not> truthy i \<or> spent P G s i \<Longrightarrow> handle_id P G i arg s = Inr s"
  by (auto simp: handle_id_def spent_def name_of_def call_property_absent)

lemma handle_ids_spent:
  assumes "\<forall>i\<in>set (ids_of m). spent P G s i"
  shows "handle_ids P G m s = Inr s"
proof -
  have "\<not> truthy (get_prop m ''result_id'') \<or> spent P G s (get_prop m ''result_id'')"
    and "\<not> truthy (get_prop m ''error_id'') \<or> spent P G s (get_prop m ''error_id'')"
    using assms by (auto simp: ids_of_def)
  then show ?thesis by (simp add: handle_ids_def handle_id_spent)
qed

lemma send_window: "send P v s = Inr s' \<Longrightarrow> window s' = window s"
  by (auto simp: send_def split: if_splits sum.splits option.splits)

lemma send_window_thrown: "send P v s = Inl (e, s') \<Longrightarrow> window s' = window s"
  by (auto simp: send_def split: if_splits sum.splits option.splits)

lemma invoke_window_cases:
  "window (snd (invoke P cmd args s)) = window s
   \<or> window (snd (invoke P cmd args s)) = (window s)
        (prop_name (entropy s (drawn s)) \<mapsto>
           \<lparr>callback = Some (Resolve (length (promises s))), once = True\<rparr>,
         prop_name (entropy s (Suc (drawn s))) \<mapsto>
           \<lparr>callback = Some (Reject (length (promises s))), once = True\<rparr>)"
proof (cases "is_connected s")
  case False
  then show ?thesis
    by (simp add: invoke_def Let_def is_connected_bridge_fields settle_fields)
next
  case True
  show ?thesis
  proof (cases "jsonMakeObjectSafe P (nullish_default args)")
    case (Inl e)
    with True show ?thesis
      by (simp add: invoke_def Let_def is_connected_bridge_fields settle_fields)
  next
    case (Inr py)
    let ?s2 = "s\<lparr>promises := promises s @ [Pending], drawn := Suc (Suc (drawn s)),
        window := (window s)
        (prop_name (entropy s (drawn s)) \<mapsto>
           \<lparr>callback = Some (Resolve (length (promises s))), once = True\<rparr>,
         prop_name (entropy s (Suc (drawn s))) \<mapsto>
           \<lparr>callback = Some (Reject (length (promises s))), once = True\<rparr>)\<rparr>"
    let ?msg = "JObj [(''cmd'', cmd), (''result_id'', JNum (uint (entropy s (drawn s)))),
                      (''error_id'', JNum (uint (entropy s (Suc (drawn s))))), (''payload'', py)]"
    have inv: "invoke P cmd args s =
        (case send P ?msg ?s2 of
           Inl (e, s3) \<Rightarrow> (length (promises s), settle (length (promises s)) (Rejected (Thrown e)) s3)
         | Inr s3 \<Rightarrow> (length (promises s), s3))"
      using True Inr
      by (simp add: invoke_def Let_def is_connected_bridge_fields transformCallback_def uid_def)
    show ?thesis
    proof (cases "send P ?msg ?s2")
      case (Inl t)
      obtain e s3 where t: "t = (e, s3)" by (cases t)
      with Inl have "window s3 = window ?s2" by (auto dest: send_window_thrown)
      then show ?thesis by (simp add: inv Inl t settle_fields)
    next
      case inr: (Inr s3)
      then have "window s3 = window ?s2" by (rule send_window)
      then show ?thesis by (simp add: inv inr)
    qed
  qed
qed

lemma invoke_all_once:
  assumes "all_once s"
  shows "all_once (snd (invoke P cmd args s))"
  using assms invoke_window_cases [of P cmd args s]
  by (auto simp: all_once_def split: if_splits)

lemma settled_kept_refl: "settled_kept s s"
  by (simp add: settled_kept_def)

lemma settled_kept_trans: "settled_kept s t \<Longrightarrow> settled_kept t u \<Longrightarrow> settled_kept s u"
  by (auto simp: settled_kept_def)

lemma settled_kept_same: "promises s' = promises s \<Longrightarrow> settled_kept s s'"
  by (simp add: settled_kept_def)

lemma settled_kept_settle: "settled_kept s (settle q out s)"
  by (auto simp: settled_kept_def settle_def nth_list_update)

lemma settled_kept_apply: "settled_kept s (apply_callback cb v s)"
  by (cases cb) (simp_all add: settled_kept_settle)


lemma settled_kept_run: "settled_kept s (run_wrapper P prop r arg s)"
proof -
  define s1 where "s1 = (if once r then s\<lparr>window := (window s)(prop := None)\<rparr> else s)"
  have a: "settled_kept s s1" by (rule settled_kept_same) (simp add: s1_def)
  show ?thesis
  proof (cases "callback r")
    case None
    with a show ?thesis by (simp add: run_wrapper_def s1_def)
  next
    case (Some cb)
    have "run_wrapper P prop r arg s = s1
        \<or> run_wrapper P prop r arg s = apply_callback cb (jsonRestoreObjectSync P arg) s1"
      using Some by (simp add: run_wrapper_def s1_def not_async)
    with a settled_kept_apply [of s1 cb] show ?thesis
      by (auto intro: settled_kept_trans)
  qed
qed

lemma settled_kept_call: "settled_kept s (after (call_property P G prop arg s))"
  by (auto simp: call_property_def settled_kept_run settled_kept_refl
      split: option.splits foreign.splits)

lemma settled_kept_id: "settled_kept s (after (handle_id P G i arg s))"
  by (simp add: handle_id_def settled_kept_call settled_kept_refl)

lemma settled_kept_ids: "settled_kept s (after (handle_ids P G data s))"
proof (cases "handle_id P G (get_prop data ''result_id'') (get_prop data ''result'') s")
  case (Inl t)
  with settled_kept_id [of s P G "get_prop data ''result_id''" "get_prop data ''result''"]
  show ?thesis by (simp add: handle_ids_def)
next
  case (Inr s0)
  with settled_kept_id [of s P G "get_prop data ''result_id''" "get_prop data ''result''"]
  have "settled_kept s s0" by simp
  moreover have "settled_kept s0
      (after (handle_id P G (get_prop data ''error_id'') (get_prop data ''error'') s0))"
    by (rule settled_kept_id)
  ultimately show ?thesis using Inr by (auto simp: handle_ids_def intro: settled_kept_trans)
qed

lemma settled_kept_warn: "settled_kept s s' \<Longrightarrow> settled_kept s (s'\<lparr>console := c\<rparr>)"
  by (simp add: settled_kept_def)

text \<open>
  Whatever message arrives in whatever state, a promise that is settled keeps its
  outcome.
\<close>

lemma settled_kept_message: "settled_kept s (on_message P G raw parsed s)"
proof -
  have "settled_kept s
      (case handle_ids P G data s of
         Inl (e, s') \<Rightarrow> s'\<lparr>console := console s' @ [InvalidMessage raw]\<rparr>
       | Inr s' \<Rightarrow> s')" for data
    using settled_kept_ids [of s P G data]
    by (auto simp: settled_kept_warn split: sum.splits)
  then show ?thesis
    unfolding on_message_def
    by (auto intro: settled_kept_same split: option.splits sum.splits)
qed

text \<open>The codec leaves a value that \<^verbatim>\<open>JSON.parse\<close> returned as it is.\<close>

lemma plain_elems_iff: "plain_elems xs \<longleftrightarrow> (\<forall>x\<in>set xs. plain_json x)"
  by (induction xs) auto

lemma plain_entries_iff: "plain_entries kvs \<longleftrightarrow> (\<forall>kv\<in>set kvs. plain_json (snd kv))"
  by (induction kvs) auto

lemma plain_is_safe: "plain_json v \<Longrightarrow> is_safe v"
  by (induction v)
    (auto simp: plain_elems_iff plain_entries_iff safe_list_iff safe_values_iff snds.simps)

lemma safe_elems_fixed:
  "(\<And>x. x \<in> set xs \<Longrightarrow> jsonMakeObjectSafe P x = Inr x) \<Longrightarrow> safe_elems P xs = Inr xs"
  by (induction xs) auto

lemma safe_entries_fixed:
  "(\<And>v. v \<in> snd ` set kvs \<Longrightarrow> jsonMakeObjectSafe P v = Inr v) \<Longrightarrow>
   distinct (map fst acc @ map fst kvs) \<Longrightarrow> safe_entries P kvs acc = Inr (acc @ kvs)"
proof (induction kvs arbitrary: acc)
  case Nil
  then show ?case by simp
next
  case (Cons kv kvs)
  obtain k v where kv: "kv = (k, v)" by (cases kv)
  from Cons.prems(2) have fresh: "k \<notin> fst ` set acc" by (auto simp: kv)
  have d: "distinct (map fst (acc @ [(k, v)]) @ map fst kvs)"
    using Cons.prems(2) by (auto simp: kv)
  have v: "jsonMakeObjectSafe P v = Inr v" using Cons.prems(1) [of v] by (simp add: kv)
  have "safe_entries P kvs (acc @ [(k, v)]) = Inr ((acc @ [(k, v)]) @ kvs)"
  proof (rule Cons.IH [OF _ d])
    fix v' assume "v' \<in> snd ` set kvs"
    then show "jsonMakeObjectSafe P v' = Inr v'" using Cons.prems(1) [of v'] by auto
  qed
  then show ?case by (simp add: kv v update_fresh [OF fresh])
qed

lemma safe_fixed: "is_safe e \<Longrightarrow> jsonMakeObjectSafe P e = Inr e"
proof (induction e)
  case (JArr xs)
  then have "safe_elems P xs = Inr xs"
    by (intro safe_elems_fixed) (auto simp: safe_list_iff)
  then show ?case by simp
next
  case (JObj kvs)
  then have "safe_entries P kvs [] = Inr ([] @ kvs)"
    by (intro safe_entries_fixed) (auto simp: safe_values_iff snds.simps)
  then show ?case by simp
qed auto

lemma message_plain:
  assumes "plain_json m" and "m \<noteq> JNull"
  shows "on_message P G raw (Some m) s =
           (case handle_ids P G m s of
              Inl (e, s') \<Rightarrow> s'\<lparr>console := console s' @ [InvalidMessage raw]\<rparr>
            | Inr s' \<Rightarrow> s')"
  using assms by (simp add: on_message_def safe_fixed [OF plain_is_safe])

text \<open>
  Claim C3, as amended. Let every registered resolver be one-shot; let the messages be
  values that \<^verbatim>\<open>JSON.parse\<close> returns, not \<^verbatim>\<open>null\<close> and without a key \<^verbatim>\<open>__proto__\<close> or
  \<^verbatim>\<open>constructor\<close>; and let the identifiers of the first message name no property of
  \<^verbatim>\<open>window\<close> other than a resolver. After a first message that the listener handles
  without an exception, no resolver is registered under an identifier that the message
  bears, and a later message that bears only such identifiers changes nothing: no
  promise is touched, no resolver is called and no warning is printed.
\<close>

theorem handled_message_inert:
  assumes "all_once s"
    and "plain_json m1" and "m1 \<noteq> JNull" and "plain_json m2" and "m2 \<noteq> JNull"
    and "set (ids_of m2) \<subseteq> set (ids_of m1)"
    and "\<forall>i\<in>set (ids_of m1). G (name_of P i) = None"
    and "handle_ids P G m1 s = Inr s1"
  shows "on_message P G raw1 (Some m1) s = s1
         \<and> (\<forall>i\<in>set (ids_of m1). window s1 (name_of P i) = None)
         \<and> on_message P G raw2 (Some m2) s1 = s1"
proof -
  have first: "on_message P G raw1 (Some m1) s = s1"
    using assms(8) by (simp add: message_plain [OF assms(2,3)])
  have gone: "\<forall>i\<in>set (ids_of m1). \<not> coerce_throws i \<and> window s1 (name_of P i) = None"
    using assms(1,8) by (rule handle_ids_returns)
  with assms(7) have "\<forall>i\<in>set (ids_of m1). spent P G s1 i"
    by (simp add: spent_def)
  with assms(6) have "\<forall>i\<in>set (ids_of m2). spent P G s1 i" by blast
  then have "handle_ids P G m2 s1 = Inr s1" by (rule handle_ids_spent)
  then have second: "on_message P G raw2 (Some m2) s1 = s1"
    by (simp add: message_plain [OF assms(4,5)])
  from first gone second show ?thesis by simp
qed

lemma dec_ids: "dec_pos 1000 = ''1000''" "dec_pos 1001 = ''1001''"
  by code_simp+

lemma echo_invoked:
  "snd (invoke reference_host (JStr ''echo'') echo_args open_bridge) =
     open_bridge\<lparr>promises := [Pending], drawn := Suc (Suc 0),
       window := [''_1000'' \<mapsto> \<lparr>callback = Some (Resolve 0), once = True\<rparr>,
                  ''_1001'' \<mapsto> \<lparr>callback = Some (Reject 0), once = True\<rparr>],
       wire := [(0, JObj [(''cmd'', JStr ''echo''), (''result_id'', JNum 1000),
                          (''error_id'', JNum 1001), (''payload'', echo_args)])]\<rparr>"
  by (simp add: invoke_connected [OF open_bridge_connected echo_args_safe] open_bridge_fields
      sample_ids prop_name_def dec_ids)


lemma open_bridge_console: "console open_bridge = []"
  by (simp add: open_bridge_def set_ready_def connect_def local_template_def fresh_bridge_def
      config_def Let_def)

lemma is_connected_entropy: "is_connected (s\<lparr>entropy := e\<rparr>) = is_connected s"
  by (simp add: is_connected_def current_state_def split: option.split)

lemma echo_all_once:
  "all_once (snd (invoke reference_host (JStr ''echo'') echo_args open_bridge))"
  using open_bridge_all_once by (rule invoke_all_once)

lemma echo_resolved:
  "handle_ids reference_host browser_globals result_frame
     (snd (invoke reference_host (JStr ''echo'') echo_args open_bridge))
   = Inr (open_bridge\<lparr>promises := [Fulfilled (JNum 42)], drawn := Suc (Suc 0),
       window := [''_1001'' \<mapsto> \<lparr>callback = Some (Reject 0), once = True\<rparr>],
       wire := [(0, JObj [(''cmd'', JStr ''echo''), (''result_id'', JNum 1000),
                          (''error_id'', JNum 1001), (''payload'', echo_args)])]\<rparr>)"
  by (simp add: echo_invoked result_frame_def handle_ids_def handle_id_def call_property_def
      run_wrapper_def Let_def dec_int_def dec_ids settle_def fun_upd_twist)

text \<open>
  The theorem of C3 for a result message that is delivered twice: the promise is
  fulfilled with 42 by the first delivery and stays so.
\<close>

theorem handled_message_inert_witness:
  "all_once (snd (invoke reference_host (JStr ''echo'') echo_args open_bridge))
   \<and> plain_json result_frame \<and> result_frame \<noteq> JNull
   \<and> set (ids_of result_frame) \<subseteq> set (ids_of result_frame)
   \<and> ids_of result_frame = [JNum 1000]
   \<and> name_of reference_host (JNum 1000) = ''_1000''
   \<and> browser_globals ''_1000'' = None
   \<and> handle_ids reference_host browser_globals result_frame
        (snd (invoke reference_host (JStr ''echo'') echo_args open_bridge))
      = Inr (on_message reference_host browser_globals ''first'' (Some result_frame)
               (snd (invoke reference_host (JStr ''echo'') echo_args open_bridge)))
   \<and> window (on_message reference_host browser_globals ''first'' (Some result_frame)
                (snd (invoke reference_host (JStr ''echo'') echo_args open_bridge))) ''_1000'' = None
   \<and> promises (on_message reference_host browser_globals ''first'' (Some result_frame)
                (snd (invoke reference_host (JStr ''echo'') echo_args open_bridge)))
       = [Fulfilled (JNum 42)]
   \<and> on_message reference_host browser_globals ''second'' (Some result_frame)
        (on_message reference_host browser_globals ''first'' (Some result_frame)
           (snd (invoke reference_host (JStr ''echo'') echo_args open_bridge)))
      = on_message reference_host browser_globals ''first'' (Some result_frame)
          (snd (invoke reference_host (JStr ''echo'') echo_args open_bridge))"
proof -
  define s where "s = snd (invoke reference_host (JStr ''echo'') echo_args open_bridge)"
  define s1 where "s1 = open_bridge\<lparr>promises := [Fulfilled (JNum 42)], drawn := Suc (Suc 0),
       window := [''_1001'' \<mapsto> \<lparr>callback = Some (Reject 0), once = True\<rparr>],
       wire := [(0, JObj [(''cmd'', JStr ''echo''), (''result_id'', JNum 1000),
                          (''error_id'', JNum 1001), (''payload'', echo_args)])]\<rparr>"
  have h1: "all_once s" unfolding s_def by (rule echo_all_once)
  have h3: "plain_json result_frame" "result_frame \<noteq> JNull"
    by (simp_all add: result_frame_def reserved_key_def)
  have h4: "set (ids_of result_frame) \<subseteq> set (ids_of result_frame)" by simp
  have h5: "ids_of result_frame = [JNum 1000]" by (simp add: ids_of_def result_frame_def)
  have h6: "name_of reference_host (JNum 1000) = ''_1000''"
    by (simp add: name_of_def dec_int_def dec_ids)
  have h2: "browser_globals ''_1000'' = None" by (simp add: browser_globals_def)
  have h2': "\<forall>i\<in>set (ids_of result_frame). browser_globals (name_of reference_host i) = None"
    using h2 by (simp add: h5 h6)
  have h7: "handle_ids reference_host browser_globals result_frame s = Inr s1"
    unfolding s_def s1_def by (rule echo_resolved)
  have m: "on_message reference_host browser_globals ''first'' (Some result_frame) s = s1"
    using h7 by (simp add: message_plain [OF h3])
  have f: "window s1 ''_1000'' = None" "promises s1 = [Fulfilled (JNum 42)]"
    by (simp_all add: s1_def)
  from handled_message_inert [OF h1 h3 h3 h4 h2' h7, of "''first''" "''second''"]
  have "on_message reference_host browser_globals ''second'' (Some result_frame) s1 = s1"
    by simp
  with h1 h2 h3 h4 h5 h6 h7 m f show ?thesis unfolding s_def by simp
qed

text \<open>
  Claim C3 as stated fails when the first message makes the listener throw before it
  reaches the identifier. The first message bears the error identifier 1001 of the
  pending invocation and the result identifier \<^verbatim>\<open>_proto__\<close>: the listener reads
  \<^verbatim>\<open>window["__proto__"]\<close>, calls it, and the TypeError ends the body. The warning is
  printed, the resolver of 1001 stays registered and the promise stays pending; a
  second message bearing 1001 then rejects the promise.
\<close>

theorem stray_message_counterexample:
  "ids_of stray_frame = [JStr ''_proto__'', JNum 1001]
   \<and> window (on_message reference_host browser_globals ''first'' (Some stray_frame)
        (snd (invoke reference_host (JStr ''echo'') echo_args open_bridge))) ''_1001''
       = Some \<lparr>callback = Some (Reject 0), once = True\<rparr>
   \<and> console (on_message reference_host browser_globals ''first'' (Some stray_frame)
        (snd (invoke reference_host (JStr ''echo'') echo_args open_bridge)))
       = [InvalidMessage ''first'']
   \<and> promises (on_message reference_host browser_globals ''first'' (Some stray_frame)
        (snd (invoke reference_host (JStr ''echo'') echo_args open_bridge))) = [Pending]
   \<and> promises (on_message reference_host browser_globals ''second'' (Some error_frame)
        (on_message reference_host browser_globals ''first'' (Some stray_frame)
           (snd (invoke reference_host (JStr ''echo'') echo_args open_bridge))))
       = [Rejected (Remote (JStr ''late''))]"
  by (simp add: echo_invoked on_message_def stray_frame_def error_frame_def ids_of_def
      handle_ids_def handle_id_def call_property_def run_wrapper_def browser_globals_def
      Let_def dec_int_def dec_ids settle_def open_bridge_console iso_date_prefix_def)

lemma settle_promises:
  "promises (settle p out s) =
     (if p < length (promises s) \<and> promises s ! p = Pending then (promises s)[p := out]
      else promises s)"
  by (simp add: settle_def)


text \<open>
  A message that bears one identifier of a registered one-shot resolver, and a payload
  that the decoder accepts, deregisters the resolver and calls its callback.
\<close>

lemma message_result_only:
  assumes "plain_json m" and "get_prop m ''result_id'' = JNum (uint i)" and "i \<noteq> 0"
    and "\<not> truthy (get_prop m ''error_id'')" and "\<not> restore_throws (get_prop m ''result'')"
    and "window t (prop_name i) = Some \<lparr>callback = Some cb, once = True\<rparr>"
  shows "on_message P G raw (Some m) t =
           apply_callback cb (jsonRestoreObjectSync P (get_prop m ''result''))
             (t\<lparr>window := (window t)(prop_name i := None)\<rparr>)"
proof -
  from assms(2) have nn: "m \<noteq> JNull" by auto
  have "handle_ids P G m t =
      Inr (apply_callback cb (jsonRestoreObjectSync P (get_prop m ''result''))
             (t\<lparr>window := (window t)(prop_name i := None)\<rparr>))"
    using assms(2-6)
    by (simp add: handle_ids_def handle_id_def call_property_def run_wrapper_def not_async
        prop_name_def dec_int_def uint_0_iff)
  then show ?thesis by (simp add: message_plain [OF assms(1) nn])
qed

lemma message_error_only:
  assumes "plain_json m" and "get_prop m ''error_id'' = JNum (uint i)" and "i \<noteq> 0"
    and "\<not> truthy (get_prop m ''result_id'')" and "\<not> restore_throws (get_prop m ''error'')"
    and "window t (prop_name i) = Some \<lparr>callback = Some cb, once = True\<rparr>"
  shows "on_message P G raw (Some m) t =
           apply_callback cb (jsonRestoreObjectSync P (get_prop m ''error''))
             (t\<lparr>window := (window t)(prop_name i := None)\<rparr>)"
proof -
  from assms(2) have nn: "m \<noteq> JNull" by auto
  have "handle_ids P G m t =
      Inr (apply_callback cb (jsonRestoreObjectSync P (get_prop m ''error''))
             (t\<lparr>window := (window t)(prop_name i := None)\<rparr>))"
    using assms(2-6)
    by (simp add: handle_ids_def handle_id_def call_property_def run_wrapper_def not_async
        prop_name_def dec_int_def uint_0_iff)
  then show ?thesis by (simp add: message_plain [OF assms(1) nn])
qed

text \<open>
  A payload on which the decoder throws: the wrapper has deregistered itself, its
  callback is not called and the promise stays pending.
\<close>

lemma undecodable_payload:
  "promises (on_message reference_host browser_globals ''r''
       (Some (JObj [(''result_id'', JNum 1000),
                    (''result'', JObj [(''media_type'', JObj [(''toString'', JNum 1)]),
                                       (''bytes'', JStr ''x'')])]))
       (snd (invoke reference_host (JStr ''echo'') echo_args open_bridge))) = [Pending]
   \<and> window (on_message reference_host browser_globals ''r''
       (Some (JObj [(''result_id'', JNum 1000),
                    (''result'', JObj [(''media_type'', JObj [(''toString'', JNum 1)]),
                                       (''bytes'', JStr ''x'')])]))
       (snd (invoke reference_host (JStr ''echo'') echo_args open_bridge))) ''_1000'' = None"
  by (simp add: echo_invoked on_message_def handle_ids_def handle_id_def call_property_def
      run_wrapper_def is_media_def Let_def dec_int_def dec_ids)

text \<open>
  Claim C10, as amended. After \<^verbatim>\<open>invoke\<close> on an open connection that drew two distinct
  identifiers, neither of them zero, and for messages that \<^verbatim>\<open>JSON.parse\<close> returned,
  without a key \<^verbatim>\<open>__proto__\<close> or \<^verbatim>\<open>constructor\<close> and with a payload on which the decoder
  does not throw: a message bearing the result identifier fulfils the promise and
  deregisters only the resolver of the result identifier; the resolver of the error
  identifier stays registered, and a later message bearing the error identifier calls
  and deregisters it without changing the promise. The same holds with the roles of the
  two identifiers exchanged.
\<close>

theorem counterpart_resolver_remains:
  assumes conn: "is_connected s"
    and enc: "jsonMakeObjectSafe P (nullish_default args) = Inr py"
    and ids: "rid = entropy s (drawn s)" "eid = entropy s (Suc (drawn s))"
      "rid \<noteq> eid" "rid \<noteq> 0" "eid \<noteq> 0"
    and mr: "plain_json mr" "get_prop mr ''result_id'' = JNum (uint rid)"
      "\<not> truthy (get_prop mr ''error_id'')" "\<not> restore_throws (get_prop mr ''result'')"
    and me: "plain_json me" "get_prop me ''error_id'' = JNum (uint eid)"
      "\<not> truthy (get_prop me ''result_id'')" "\<not> restore_throws (get_prop me ''error'')"
    and s1: "s1 = snd (invoke P (JStr c) args s)" and p: "p = length (promises s)"
    and s2: "s2 = on_message P G rawr (Some mr) s1"
    and s3: "s3 = on_message P G rawe (Some me) s2"
    and t2: "t2 = on_message P G rawe (Some me) s1"
    and t3: "t3 = on_message P G rawr (Some mr) t2"
  shows "promises s1 ! p = Pending
    \<and> promises s2 ! p = Fulfilled (jsonRestoreObjectSync P (get_prop mr ''result''))
    \<and> window s2 (prop_name rid) = None
    \<and> window s2 (prop_name eid) = Some \<lparr>callback = Some (Reject p), once = True\<rparr>
    \<and> window s3 (prop_name eid) = None \<and> promises s3 = promises s2
    \<and> promises t2 ! p = Rejected (Remote (jsonRestoreObjectSync P (get_prop me ''error'')))
    \<and> window t2 (prop_name eid) = None
    \<and> window t2 (prop_name rid) = Some \<lparr>callback = Some (Resolve p), once = True\<rparr>
    \<and> window t3 (prop_name rid) = None \<and> promises t3 = promises t2"
proof -
  have ne: "prop_name rid \<noteq> prop_name eid" using ids(3) by (auto dest: prop_name_inj)
  have w1: "window s1 = (window s)
      (prop_name rid \<mapsto> \<lparr>callback = Some (Resolve p), once = True\<rparr>,
       prop_name eid \<mapsto> \<lparr>callback = Some (Reject p), once = True\<rparr>)"
    and p1: "promises s1 = promises s @ [Pending]"
    unfolding s1 p ids(1,2) by (simp_all add: invoke_connected [OF conn enc])
  note hr = message_result_only [OF mr(1,2) ids(4) mr(3,4), of _ "Resolve p" P G]
  note he = message_error_only [OF me(1,2) ids(5) me(3,4), of _ "Reject p" P G]
  have r1: "window s1 (prop_name rid) = Some \<lparr>callback = Some (Resolve p), once = True\<rparr>"
    and e1: "window s1 (prop_name eid) = Some \<lparr>callback = Some (Reject p), once = True\<rparr>"
    using ne by (simp_all add: w1)
  have s2': "s2 = settle p (Fulfilled (jsonRestoreObjectSync P (get_prop mr ''result'')))
      (s1\<lparr>window := (window s1)(prop_name rid := None)\<rparr>)"
    unfolding s2 by (simp add: hr [OF r1])
  have t2': "t2 = settle p (Rejected (Remote (jsonRestoreObjectSync P (get_prop me ''error''))))
      (s1\<lparr>window := (window s1)(prop_name eid := None)\<rparr>)"
    unfolding t2 by (simp add: he [OF e1])
  have ps2: "promises s2 = promises s @ [Fulfilled (jsonRestoreObjectSync P (get_prop mr ''result''))]"
    by (simp add: s2' settle_promises p1 p)
  have pt2: "promises t2 = promises s @ [Rejected (Remote (jsonRestoreObjectSync P (get_prop me ''error'')))]"
    by (simp add: t2' settle_promises p1 p)
  have ws2: "window s2 = (window s1)(prop_name rid := None)" by (simp add: s2' settle_fields)
  have wt2: "window t2 = (window s1)(prop_name eid := None)" by (simp add: t2' settle_fields)
  have e2: "window s2 (prop_name eid) = Some \<lparr>callback = Some (Reject p), once = True\<rparr>"
    using ne e1 by (simp add: ws2)
  have r2: "window t2 (prop_name rid) = Some \<lparr>callback = Some (Resolve p), once = True\<rparr>"
    using ne r1 by (simp add: wt2)
  have s3': "s3 = settle p (Rejected (Remote (jsonRestoreObjectSync P (get_prop me ''error''))))
      (s2\<lparr>window := (window s2)(prop_name eid := None)\<rparr>)"
    unfolding s3 by (simp add: he [OF e2])
  have t3': "t3 = settle p (Fulfilled (jsonRestoreObjectSync P (get_prop mr ''result'')))
      (t2\<lparr>window := (window t2)(prop_name rid := None)\<rparr>)"
    unfolding t3 by (simp add: hr [OF r2])
  have ps3: "promises s3 = promises s2" by (simp add: s3' settle_promises ps2 p)
  have pt3: "promises t3 = promises t2" by (simp add: t3' settle_promises pt2 p)
  have ws3: "window s3 (prop_name eid) = None" by (simp add: s3' settle_fields)
  have wt3: "window t3 (prop_name rid) = None" by (simp add: t3' settle_fields)
  show ?thesis
    using p1 ps2 pt2 e2 r2 ps3 pt3 ws3 wt3 by (simp add: ws2 wt2 p)
qed

text \<open>The theorem of C10 for a result message followed by an error message.\<close>

theorem counterpart_resolver_remains_witness:
  "is_connected open_bridge
   \<and> jsonMakeObjectSafe reference_host (nullish_default echo_args) = Inr echo_args
   \<and> (1000 :: 32 word) = entropy open_bridge (drawn open_bridge)
   \<and> (1001 :: 32 word) = entropy open_bridge (Suc (drawn open_bridge))
   \<and> (1000 :: 32 word) \<noteq> 1001 \<and> (1000 :: 32 word) \<noteq> 0 \<and> (1001 :: 32 word) \<noteq> 0
   \<and> plain_json result_frame
   \<and> get_prop result_frame ''result_id'' = JNum (uint (1000 :: 32 word))
   \<and> \<not> truthy (get_prop result_frame ''error_id'')
   \<and> \<not> restore_throws (get_prop result_frame ''result'')
   \<and> plain_json error_frame
   \<and> get_prop error_frame ''error_id'' = JNum (uint (1001 :: 32 word))
   \<and> \<not> truthy (get_prop error_frame ''result_id'')
   \<and> \<not> restore_throws (get_prop error_frame ''error'')
   \<and> promises (on_message reference_host browser_globals ''r'' (Some result_frame)
        (snd (invoke reference_host (JStr ''echo'') echo_args open_bridge))) ! 0
      = Fulfilled (JNum 42)
   \<and> window (on_message reference_host browser_globals ''r'' (Some result_frame)
        (snd (invoke reference_host (JStr ''echo'') echo_args open_bridge))) (prop_name 1001)
      = Some \<lparr>callback = Some (Reject 0), once = True\<rparr>
   \<and> window (on_message reference_host browser_globals ''e'' (Some error_frame)
        (on_message reference_host browser_globals ''r'' (Some result_frame)
          (snd (invoke reference_host (JStr ''echo'') echo_args open_bridge)))) (prop_name 1001)
      = None
   \<and> promises (on_message reference_host browser_globals ''e'' (Some error_frame)
        (on_message reference_host browser_globals ''r'' (Some result_frame)
          (snd (invoke reference_host (JStr ''echo'') echo_args open_bridge)))) ! 0
      = Fulfilled (JNum 42)"
proof -
  have h1: "is_connected open_bridge" by (rule open_bridge_connected)
  have h2: "jsonMakeObjectSafe reference_host (nullish_default echo_args) = Inr echo_args"
    by (rule echo_args_safe)
  have h3: "(1000 :: 32 word) = entropy open_bridge (drawn open_bridge)"
    "(1001 :: 32 word) = entropy open_bridge (Suc (drawn open_bridge))"
    by (simp_all add: open_bridge_fields sample_ids)
  have h4: "(1000 :: 32 word) \<noteq> 1001" "(1000 :: 32 word) \<noteq> 0" "(1001 :: 32 word) \<noteq> 0"
    by simp_all
  have h5: "plain_json result_frame"
    "get_prop result_frame ''result_id'' = JNum (uint (1000 :: 32 word))"
    "\<not> truthy (get_prop result_frame ''error_id'')"
    "\<not> restore_throws (get_prop result_frame ''result'')"
    by (simp_all add: result_frame_def reserved_key_def)
  have h6: "plain_json error_frame"
    "get_prop error_frame ''error_id'' = JNum (uint (1001 :: 32 word))"
    "\<not> truthy (get_prop error_frame ''result_id'')"
    "\<not> restore_throws (get_prop error_frame ''error'')"
    by (simp_all add: error_frame_def reserved_key_def)
  have v: "jsonRestoreObjectSync reference_host (get_prop result_frame ''result'') = JNum 42"
    by (simp add: result_frame_def)
  from counterpart_resolver_remains [OF h1 h2 h3 h4 h5 h6 refl refl refl refl refl refl,
      of "''echo''" browser_globals "''r''" "''e''"]
  show ?thesis using h1 h2 h3 h4 h5 h6 by (simp add: open_bridge_fields v)
qed

lemma dec_zero: "dec_pos 0 = ''0''"
  by code_simp

lemma lopsided_bridge_fields:
  "window lopsided_bridge = Map.empty" "promises lopsided_bridge = []"
  "wire lopsided_bridge = []" "drawn lopsided_bridge = 0"
  "entropy lopsided_bridge = lopsided_entropy" "ws lopsided_bridge = Some 0"
  "console lopsided_bridge = []"
  by (simp_all add: lopsided_bridge_def open_bridge_fields open_bridge_console)

lemma colliding_bridge_fields:
  "window colliding_bridge = Map.empty" "promises colliding_bridge = []"
  "wire colliding_bridge = []" "drawn colliding_bridge = 0"
  "entropy colliding_bridge = constant_entropy" "ws colliding_bridge = Some 0"
  by (simp_all add: colliding_bridge_def open_bridge_fields)

lemma lopsided_invoked:
  "snd (invoke reference_host (JStr ''echo'') echo_args lopsided_bridge) =
     lopsided_bridge\<lparr>promises := [Pending], drawn := Suc (Suc 0),
       window := [''_1000'' \<mapsto> \<lparr>callback = Some (Resolve 0), once = True\<rparr>,
                  ''_0'' \<mapsto> \<lparr>callback = Some (Reject 0), once = True\<rparr>],
       wire := [(0, JObj [(''cmd'', JStr ''echo''), (''result_id'', JNum 1000),
                          (''error_id'', JNum 0), (''payload'', echo_args)])]\<rparr>"
proof -
  have c: "is_connected lopsided_bridge"
    using open_bridge_connected by (simp add: lopsided_bridge_def is_connected_entropy)
  show ?thesis
    by (simp add: invoke_connected [OF c echo_args_safe] lopsided_bridge_fields
        lopsided_entropy_def prop_name_def dec_ids dec_zero)
qed

lemma colliding_invoked:
  "snd (invoke reference_host (JStr ''echo'') echo_args colliding_bridge) =
     colliding_bridge\<lparr>promises := [Pending], drawn := Suc (Suc 0),
       window := [''_1000'' \<mapsto> \<lparr>callback = Some (Reject 0), once = True\<rparr>],
       wire := [(0, JObj [(''cmd'', JStr ''echo''), (''result_id'', JNum 1000),
                          (''error_id'', JNum 1000), (''payload'', echo_args)])]\<rparr>"
proof -
  have c: "is_connected colliding_bridge"
    using open_bridge_connected by (simp add: colliding_bridge_def is_connected_entropy)
  show ?thesis
    by (simp add: invoke_connected [OF c echo_args_safe] colliding_bridge_fields
        constant_entropy_def prop_name_def dec_ids)
qed

text \<open>
  Claim C10 as stated fails for identifiers that \<^verbatim>\<open>uid\<close> can draw. When the error
  identifier is 0, the result message fulfils the promise and the resolver of the error
  identifier remains, but a later message bearing the error identifier 0 neither calls
  nor deregisters it: 0 is falsy, and the listener skips the block. When both
  identifiers are 1000, the second resolver replaces the first, and the result message
  rejects the promise.
\<close>

theorem counterpart_zero_id_counterexample:
  "wire (snd (invoke reference_host (JStr ''echo'') echo_args lopsided_bridge))
     = [(0, JObj [(''cmd'', JStr ''echo''), (''result_id'', JNum 1000),
                  (''error_id'', JNum 0), (''payload'', echo_args)])]
   \<and> promises (on_message reference_host browser_globals ''r'' (Some result_frame)
        (snd (invoke reference_host (JStr ''echo'') echo_args lopsided_bridge)))
       = [Fulfilled (JNum 42)]
   \<and> window (on_message reference_host browser_globals ''r'' (Some result_frame)
        (snd (invoke reference_host (JStr ''echo'') echo_args lopsided_bridge))) ''_0''
       = Some \<lparr>callback = Some (Reject 0), once = True\<rparr>
   \<and> on_message reference_host browser_globals ''e'' (Some zero_error_frame)
        (on_message reference_host browser_globals ''r'' (Some result_frame)
           (snd (invoke reference_host (JStr ''echo'') echo_args lopsided_bridge)))
       = on_message reference_host browser_globals ''r'' (Some result_frame)
           (snd (invoke reference_host (JStr ''echo'') echo_args lopsided_bridge))
   \<and> promises (on_message reference_host browser_globals ''r'' (Some result_frame)
        (snd (invoke reference_host (JStr ''echo'') echo_args colliding_bridge)))
       = [Rejected (Remote (JNum 42))]"
  by (simp add: lopsided_invoked colliding_invoked on_message_def result_frame_def
      zero_error_frame_def handle_ids_def handle_id_def call_property_def run_wrapper_def
      Let_def dec_int_def dec_ids settle_def lopsided_bridge_fields colliding_bridge_fields)

end
